theory Spec2Isabelle
  imports Main "HOL-Library.Word"
begin

section \<open>The schema upgrader of chaind's PostgreSQL store\<close>

text \<open>
  The development embeds \<^verbatim>\<open>services/chaindb/postgresql/upgrader.go\<close>: the upgrade
  entry point \<^verbatim>\<open>Upgrade\<close>, the version tracker (\<^verbatim>\<open>version\<close>, \<^verbatim>\<open>setVersion\<close>),
  the seven upgrade functions of schema version 1 and the catalogue probe
  \<^verbatim>\<open>columnExists\<close>.

  Every Go function that mutates the database becomes a function that takes the world
  and returns the new one together with its Go result; an \<^verbatim>\<open>error\<close> result is an
  \<open>error option\<close> (\<open>None\<close> is \<^verbatim>\<open>nil\<close>), a \<^verbatim>\<open>(T, error)\<close> result a sum or a pair.
\<close>

subsection \<open>Values\<close>

type_synonym uint64 = "64 word"
type_synonym bytes = string
type_synonym txid = nat

text \<open>
  Errors. \<open>ErrNoTransaction\<close> is the package's sentinel, \<open>Failure\<close> an error raised
  by a collaborator (driver, JSON codec, hashing), \<open>Wrap err msg\<close> is
  \<^verbatim>\<open>errors.Wrap(err, msg)\<close>.
\<close>

datatype error = ErrNoTransaction | Failure string | Wrap error string

text \<open>A context either carries a transaction or it does not: \<^verbatim>\<open>s.tx(ctx)\<close> reads it.\<close>

type_synonym ctx = "txid option"

text \<open>
  What a run does to its surroundings, in order: the life cycle of transactions, the
  statements and queries issued on a transaction handle, the writes made through the
  service, and the three log lines of \<^verbatim>\<open>Upgrade\<close>.
\<close>

datatype event =
    BeginTxEv txid
  | CancelEv txid
  | CommitEv txid
  | ExecEv txid string
  | QueryEv txid string
  | SetMetadataEv txid string bytes
  | SetProposerSlashingEv txid
  | LogUpgrading uint64
  | LogRunning nat nat
  | LogComplete

text \<open>
  A database holds the metadata table (key to document) and everything else
  (\<open>tables\<close>: relations, columns, rows), which the upgrader never inspects itself.
\<close>

record 'r database =
  metadata :: "string \<rightharpoonup> bytes"
  tables :: 'r

text \<open>
  The world: the committed database, the working copy of every open transaction, the
  next free transaction handle and the events so far.
\<close>

record 'r world =
  persisted :: "'r database"
  pending :: "txid \<rightharpoonup> 'r database"
  nexttx :: txid
  trace :: "event list"

text \<open>The fields of a proposer slashing and of a block header that the backfill touches.\<close>

record beacon_block_header =
  Slot :: uint64
  ProposerIndex :: uint64
  ParentRoot :: bytes
  StateRoot :: bytes
  BodyRoot :: bytes

record proposer_slashing =
  Header1Slot :: uint64
  Header1ProposerIndex :: uint64
  Header1ParentRoot :: bytes
  Header1StateRoot :: bytes
  Header1BodyRoot :: bytes
  Block1Root :: bytes
  Header2Slot :: uint64
  Header2ProposerIndex :: uint64
  Header2ParentRoot :: bytes
  Header2StateRoot :: bytes
  Header2BodyRoot :: bytes
  Block2Root :: bytes

subsection \<open>External collaborators\<close>

text \<open>
  Everything outside the repository is a parameter: how the SQL engine answers a
  statement (\<open>exec_sql\<close>) or the single-row boolean query of \<^verbatim>\<open>columnExists\<close>
  (\<open>query_sql\<close>: the query's own error, or else what \<^verbatim>\<open>rows.Next(); rows.Scan(&found)\<close>
  yields), when beginning, committing, reading or writing fails, the JSON codec of
  \<^verbatim>\<open>schemaMetadata\<close>, the storage of proposer slashings and \<^verbatim>\<open>HashTreeRoot\<close>.
\<close>

record 'r env =
  begin_fault :: "'r database \<Rightarrow> error option"
  commit_fault :: "'r database \<Rightarrow> error option"
  exec_sql :: "string \<Rightarrow> 'r database \<Rightarrow> error + 'r database"
  query_sql :: "string \<Rightarrow> 'r database \<Rightarrow> error + (error + bool)"
  metadata_fault :: "string \<Rightarrow> 'r database \<Rightarrow> error option"
  set_metadata_fault :: "string \<Rightarrow> bytes \<Rightarrow> 'r database \<Rightarrow> error option"
  json_Marshal :: "uint64 \<Rightarrow> error + bytes"
  json_Unmarshal :: "bytes \<Rightarrow> error + uint64"
  read_slashings :: "uint64 \<Rightarrow> uint64 \<Rightarrow> 'r database \<Rightarrow> error + proposer_slashing list"
  write_slashing :: "proposer_slashing \<Rightarrow> 'r database \<Rightarrow> error + 'r database"
  hash_tree_root :: "beacon_block_header \<Rightarrow> error + bytes"

subsection \<open>The service around the upgrader\<close>

definition emit :: "event \<Rightarrow> 'r world \<Rightarrow> 'r world" where
  "emit ev w = w\<lparr>trace := trace w @ [ev]\<rparr>"

definition tx_closed :: error where
  "tx_closed = Failure ''tx is closed''"

text \<open>
  Modelled from the spec: \<^verbatim>\<open>BeginTx\<close>, the begin of the Transaction Scope, is not
  among the sources. It opens a scope on a snapshot of the committed database and
  returns its handle \<open>t\<close>; the context the Go function returns is \<open>Some t\<close> and the
  cancel function it returns is \<open>cancel t\<close>.
\<close>

definition BeginTx :: "'r env \<Rightarrow> ctx \<Rightarrow> 'r world \<Rightarrow> (error + txid) \<times> 'r world" where
  "BeginTx E ctx w =
     (case begin_fault E (persisted w) of
        Some err \<Rightarrow> (Inl err, w)
      | None \<Rightarrow>
          (let t = nexttx w in
           (Inr t, emit (BeginTxEv t)
                     (w\<lparr>pending := (pending w)(t \<mapsto> persisted w), nexttx := Suc t\<rparr>))))"

text \<open>
  Modelled from the spec: the cancel operation of the Transaction Scope, not among the
  sources. It discards the scope's working copy.
\<close>

definition cancel :: "txid \<Rightarrow> 'r world \<Rightarrow> 'r world" where
  "cancel t w = emit (CancelEv t) (w\<lparr>pending := (pending w)(t := None)\<rparr>)"

text \<open>
  Modelled from the spec: \<^verbatim>\<open>CommitTx\<close>, the commit of the Transaction Scope, is not
  among the sources. A successful commit makes the working copy the committed
  database and closes the scope; a failed one changes nothing.
\<close>

definition CommitTx :: "'r env \<Rightarrow> ctx \<Rightarrow> 'r world \<Rightarrow> error option \<times> 'r world" where
  "CommitTx E ctx w =
     (case ctx of
        None \<Rightarrow> (Some (Failure ''no transaction''), w)
      | Some t \<Rightarrow>
          (case pending w t of
             None \<Rightarrow> (Some tx_closed, w)
           | Some d \<Rightarrow>
               (case commit_fault E d of
                  Some err \<Rightarrow> (Some err, w)
                | None \<Rightarrow>
                    (None, emit (CommitEv t)
                             (w\<lparr>persisted := d, pending := (pending w)(t := None)\<rparr>)))))"

text \<open>
  Modelled from the spec: the read of one key of the Metadata Store, which is not
  among the sources. It fails when the store does, and an absent key gives no bytes.
\<close>

definition read_metadata :: "'r env \<Rightarrow> string \<Rightarrow> 'r database \<Rightarrow> error + bytes" where
  "read_metadata E key d =
     (case metadata_fault E key d of
        Some err \<Rightarrow> Inl err
      | None \<Rightarrow> Inr (case metadata d key of None \<Rightarrow> [] | Some data \<Rightarrow> data))"

text \<open>
  Modelled from the spec: \<^verbatim>\<open>Metadata\<close>, the get of the Metadata Store Adapter, is not
  among the sources. It reads within the ambient transaction when there is one and
  the committed database otherwise.
\<close>

definition Metadata :: "'r env \<Rightarrow> ctx \<Rightarrow> string \<Rightarrow> 'r world \<Rightarrow> error + bytes" where
  "Metadata E ctx key w =
     (case ctx of
        None \<Rightarrow> read_metadata E key (persisted w)
      | Some t \<Rightarrow>
          (case pending w t of
             None \<Rightarrow> Inl tx_closed
           | Some d \<Rightarrow> read_metadata E key d))"

text \<open>
  Modelled from the spec: \<^verbatim>\<open>SetMetadata\<close>, the set of the Metadata Store Adapter, is
  not among the sources. It writes within the ambient transaction.
\<close>

definition SetMetadata :: "'r env \<Rightarrow> ctx \<Rightarrow> string \<Rightarrow> bytes \<Rightarrow> 'r world \<Rightarrow> error option \<times> 'r world" where
  "SetMetadata E ctx key data w =
     (case ctx of
        None \<Rightarrow> (Some ErrNoTransaction, w)
      | Some t \<Rightarrow>
          (case pending w t of
             None \<Rightarrow> (Some tx_closed, w)
           | Some d \<Rightarrow>
               (case set_metadata_fault E key data d of
                  Some err \<Rightarrow> (Some err, w)
                | None \<Rightarrow>
                    (None, emit (SetMetadataEv t key data)
                             (w\<lparr>pending := (pending w)(t \<mapsto> d\<lparr>metadata := (metadata d)(key \<mapsto> data)\<rparr>)\<rparr>)))))"

text \<open>
  Modelled from the spec: \<^verbatim>\<open>ProposerSlashingsForSlotRange\<close>, the range read of domain
  records, is not among the sources.
\<close>

definition ProposerSlashingsForSlotRange ::
  "'r env \<Rightarrow> ctx \<Rightarrow> uint64 \<Rightarrow> uint64 \<Rightarrow> 'r world \<Rightarrow> error + proposer_slashing list" where
  "ProposerSlashingsForSlotRange E ctx minSlot maxSlot w =
     (case ctx of
        None \<Rightarrow> read_slashings E minSlot maxSlot (persisted w)
      | Some t \<Rightarrow>
          (case pending w t of
             None \<Rightarrow> Inl tx_closed
           | Some d \<Rightarrow> read_slashings E minSlot maxSlot d))"

text \<open>
  Modelled from the spec: \<^verbatim>\<open>SetProposerSlashing\<close>, the upsert of a domain record, is
  not among the sources.
\<close>

definition SetProposerSlashing ::
  "'r env \<Rightarrow> ctx \<Rightarrow> proposer_slashing \<Rightarrow> 'r world \<Rightarrow> error option \<times> 'r world" where
  "SetProposerSlashing E ctx ps w =
     (case ctx of
        None \<Rightarrow> (Some ErrNoTransaction, w)
      | Some t \<Rightarrow>
          (case pending w t of
             None \<Rightarrow> (Some tx_closed, w)
           | Some d \<Rightarrow>
               (case write_slashing E ps d of
                  Inl err \<Rightarrow> (Some err, w)
                | Inr d' \<Rightarrow>
                    (None, emit (SetProposerSlashingEv t) (w\<lparr>pending := (pending w)(t \<mapsto> d')\<rparr>)))))"

text \<open>
  Modelled from the spec: the statement-execution interface of the relational store,
  \<^verbatim>\<open>tx.Exec(ctx, sql)\<close> of the driver, is an external collaborator. The statement
  is issued on the working copy of the transaction; a statement the engine rejects
  leaves the copy as it was, and a closed transaction accepts none.
\<close>

definition tx_Exec :: "'r env \<Rightarrow> txid \<Rightarrow> string \<Rightarrow> 'r world \<Rightarrow> error option \<times> 'r world" where
  "tx_Exec E t sql w =
     (case pending w t of
        None \<Rightarrow> (Some tx_closed, emit (ExecEv t sql) w)
      | Some d \<Rightarrow>
          (case exec_sql E sql d of
             Inl err \<Rightarrow> (Some err, emit (ExecEv t sql) w)
           | Inr d' \<Rightarrow> (None, emit (ExecEv t sql) (w\<lparr>pending := (pending w)(t \<mapsto> d')\<rparr>))))"

text \<open>
  Modelled from the spec: the query interface of the relational store,
  \<^verbatim>\<open>tx.Query(ctx, sql)\<close> of the driver followed by \<^verbatim>\<open>rows.Next()\<close> and
  \<^verbatim>\<open>rows.Scan(&found)\<close>, is an external collaborator. The query reads the working
  copy of the transaction and changes nothing.
\<close>

definition tx_Query :: "'r env \<Rightarrow> txid \<Rightarrow> string \<Rightarrow> 'r world \<Rightarrow> (error + (error + bool)) \<times> 'r world" where
  "tx_Query E t sql w =
     (case pending w t of
        None \<Rightarrow> (Inl tx_closed, emit (QueryEv t sql) w)
      | Some d \<Rightarrow> (query_sql E sql d, emit (QueryEv t sql) w))"

subsection \<open>Upgrade functions\<close>

text \<open>An upgrade function: \<^verbatim>\<open>func(context.Context, *Service) error\<close>.\<close>

type_synonym 'r step = "ctx \<Rightarrow> 'r world \<Rightarrow> error option \<times> 'r world"

text \<open>
  \<^verbatim>\<open>if _, err := tx.Exec(ctx, sql); err != nil { return errors.Wrap(err, msg) }\<close>,
  and a run of such statements, one after the other, up to the first that fails.
\<close>

definition exec_or_wrap :: "'r env \<Rightarrow> txid \<Rightarrow> string \<times> string \<Rightarrow> 'r world \<Rightarrow> error option \<times> 'r world" where
  "exec_or_wrap E t stmt w =
     (case tx_Exec E t (fst stmt) w of
        (Some err, w') \<Rightarrow> (Some (Wrap err (snd stmt)), w')
      | (None, w') \<Rightarrow> (None, w'))"

fun exec_each :: "'r env \<Rightarrow> txid \<Rightarrow> (string \<times> string) list \<Rightarrow> 'r world \<Rightarrow> error option \<times> 'r world" where
  "exec_each E t [] w = (None, w)"
| "exec_each E t (stmt # stmts) w =
     (case exec_or_wrap E t stmt w of
        (Some err, w') \<Rightarrow> (Some err, w')
      | (None, w') \<Rightarrow> exec_each E t stmts w')"

definition validatorsEpochNull_stmts :: "(string \<times> string) list" where
  "validatorsEpochNull_stmts =
   [(''ALTER TABLE t_validators ALTER COLUMN f_activation_eligibility_epoch DROP NOT NULL'',
     ''failed to drop NOT NULL constraint on f_activation_eligibility_epoch''),
    (''ALTER TABLE t_validators ALTER COLUMN f_activation_epoch DROP NOT NULL'',
     ''failed to drop NOT NULL constraint on f_activation_epoch''),
    (''ALTER TABLE t_validators ALTER COLUMN f_exit_epoch DROP NOT NULL'',
     ''failed to drop NOT NULL constraint on f_exit_epoch''),
    (''ALTER TABLE t_validators ALTER COLUMN f_withdrawable_epoch DROP NOT NULL'',
     ''failed to drop NOT NULL constraint on f_withdrawable_epoch''),
    (''UPDATE t_validators SET f_activation_eligibility_epoch = NULL WHERE f_activation_eligibility_epoch = -1'',
     ''failed to change -1 to NULL on f_activation_eligibility_epoch''),
    (''UPDATE t_validators SET f_activation_epoch = NULL WHERE f_activation_epoch = -1'',
     ''failed to change -1 to NULL on f_activation_epoch''),
    (''UPDATE t_validators SET f_exit_epoch = NULL WHERE f_exit_epoch = -1'',
     ''failed to change -1 to NULL on f_exit_epoch''),
    (''UPDATE t_validators SET f_withdrawable_epoch = NULL WHERE f_withdrawable_epoch = -1'',
     ''failed to change -1 to NULL on f_withdrawable_epoch'')]"

definition validatorsEpochNull :: "'r env \<Rightarrow> 'r step" where
  "validatorsEpochNull E ctx w =
     (case ctx of
        None \<Rightarrow> (Some ErrNoTransaction, w)
      | Some tx \<Rightarrow> exec_each E tx validatorsEpochNull_stmts w)"

definition createDeposits_stmts :: "(string \<times> string) list" where
  "createDeposits_stmts =
   [(''CREATE TABLE t_deposits (\<newline>  f_inclusion_slot         BIGINT NOT NULL\<newline> ,f_inclusion_block_root   BYTEA NOT NULL REFERENCES t_blocks(f_root) ON DELETE CASCADE\<newline> ,f_inclusion_index        BIGINT NOT NULL\<newline> ,f_validator_pubkey       BYTEA NOT NULL\<newline> ,f_withdrawal_credentials BYTEA NOT NULL\<newline> ,f_amount                 BIGINT NOT NULL\<newline>)'',
     ''failed to create deposits table''),
    (''CREATE UNIQUE INDEX i_deposits_1 ON t_deposits(f_inclusion_slot,f_inclusion_block_root,f_inclusion_index)'',
     ''failed to create deposits index'')]"

definition createDeposits :: "'r env \<Rightarrow> 'r step" where
  "createDeposits E ctx w =
     (case ctx of
        None \<Rightarrow> (Some ErrNoTransaction, w)
      | Some tx \<Rightarrow> exec_each E tx createDeposits_stmts w)"

definition createChainSpec_stmts :: "(string \<times> string) list" where
  "createChainSpec_stmts =
   [(''CREATE TABLE t_chain_spec (\<newline>  f_key TEXT NOT NULL PRIMARY KEY\<newline> ,f_value TEXT NOT NULL\<newline>)'',
     ''failed to create chain spec table'')]"

definition createChainSpec :: "'r env \<Rightarrow> 'r step" where
  "createChainSpec E ctx w =
     (case ctx of
        None \<Rightarrow> (Some ErrNoTransaction, w)
      | Some tx \<Rightarrow> exec_each E tx createChainSpec_stmts w)"

definition createGenesis_stmts :: "(string \<times> string) list" where
  "createGenesis_stmts =
   [(''CREATE TABLE t_genesis (\<newline>  f_validators_root BYTEA NOT NULL PRIMARY KEY\<newline> ,f_time TIMESTAMPTZ NOT NULL\<newline> ,f_fork_version BYTEA NOT NULL\<newline>)'',
     ''failed to create genesis table'')]"

definition createGenesis :: "'r env \<Rightarrow> 'r step" where
  "createGenesis E ctx w =
     (case ctx of
        None \<Rightarrow> (Some ErrNoTransaction, w)
      | Some tx \<Rightarrow> exec_each E tx createGenesis_stmts w)"

text \<open>
  The backfill loop of \<^verbatim>\<open>addProposerSlashingBlockRoots\<close>: for each slashing, the
  roots of its two headers are computed and the slashing is written back.
\<close>

fun backfill :: "'r env \<Rightarrow> ctx \<Rightarrow> proposer_slashing list \<Rightarrow> 'r world \<Rightarrow> error option \<times> 'r world" where
  "backfill E ctx [] w = (None, w)"
| "backfill E ctx (proposerSlashing # rest) w =
     (case hash_tree_root E
             \<lparr>Slot = Header1Slot proposerSlashing,
              ProposerIndex = Header1ProposerIndex proposerSlashing,
              ParentRoot = Header1ParentRoot proposerSlashing,
              StateRoot = Header1StateRoot proposerSlashing,
              BodyRoot = Header1BodyRoot proposerSlashing\<rparr> of
        Inl err \<Rightarrow> (Some (Wrap err ''failed to calculate proposer slashing block 1 root''), w)
      | Inr root1 \<Rightarrow>
          (case hash_tree_root E
                  \<lparr>Slot = Header2Slot proposerSlashing,
                   ProposerIndex = Header2ProposerIndex proposerSlashing,
                   ParentRoot = Header2ParentRoot proposerSlashing,
                   StateRoot = Header2StateRoot proposerSlashing,
                   BodyRoot = Header2BodyRoot proposerSlashing\<rparr> of
             Inl err \<Rightarrow> (Some (Wrap err ''failed to calculate proposer slashing block 2 root''), w)
           | Inr root2 \<Rightarrow>
               (case SetProposerSlashing E ctx
                       (proposerSlashing\<lparr>Block1Root := root1, Block2Root := root2\<rparr>) w of
                  (Some err, w') \<Rightarrow> (Some (Wrap err ''failed to update proposer slashing''), w')
                | (None, w') \<Rightarrow> backfill E ctx rest w')))"

definition addProposerSlashingBlockRoots_add :: "(string \<times> string) list" where
  "addProposerSlashingBlockRoots_add =
   [(''\<newline>ALTER TABLE t_proposer_slashings\<newline>ADD COLUMN f_block_1_root BYTEA\<newline>'',
     ''failed to add f_block_1_root to proposer slashings table''),
    (''\<newline>ALTER TABLE t_proposer_slashings\<newline>ADD COLUMN f_block_2_root BYTEA\<newline>'',
     ''failed to add f_block_2_root to proposer slashings table'')]"

definition addProposerSlashingBlockRoots_tighten :: "(string \<times> string) list" where
  "addProposerSlashingBlockRoots_tighten =
   [(''\<newline>ALTER TABLE t_proposer_slashings\<newline>ALTER COLUMN f_block_1_root SET NOT NULL\<newline>'',
     ''failed to add NOT NULL constraint for f_block_1_root to proposer slashings table''),
    (''\<newline>ALTER TABLE t_proposer_slashings\<newline>ALTER COLUMN f_block_2_root SET NOT NULL\<newline>'',
     ''failed to add NOT NULL constraint for f_block_2_root to proposer slashings table'')]"

definition addProposerSlashingBlockRoots :: "'r env \<Rightarrow> 'r step" where
  "addProposerSlashingBlockRoots E ctx w =
     (case ctx of
        None \<Rightarrow> (Some ErrNoTransaction, w)
      | Some tx \<Rightarrow>
          (case exec_each E tx addProposerSlashingBlockRoots_add w of
             (Some err, w1) \<Rightarrow> (Some err, w1)
           | (None, w1) \<Rightarrow>
               (case ProposerSlashingsForSlotRange E ctx 0 0x7fffffffffffffff w1 of
                  Inl err \<Rightarrow> (Some (Wrap err ''failed to obtain current proposer slashings''), w1)
                | Inr proposerSlashings \<Rightarrow>
                    (case backfill E ctx proposerSlashings w1 of
                       (Some err, w2) \<Rightarrow> (Some err, w2)
                     | (None, w2) \<Rightarrow> exec_each E tx addProposerSlashingBlockRoots_tighten w2))))"

definition createETH1Deposits_stmts :: "(string \<times> string) list" where
  "createETH1Deposits_stmts =
   [(''\<newline>CREATE TABLE IF NOT EXISTS t_eth1_deposits (\<newline>  f_eth1_block_number      BIGINT NOT NULL\<newline> ,f_eth1_block_hash        BYTEA NOT NULL\<newline> ,f_eth1_block_timestamp   TIMESTAMPTZ NOT NULL\<newline> ,f_eth1_tx_hash           BYTEA NOT NULL\<newline> ,f_eth1_log_index         BIGINT NOT NULL\<newline> ,f_eth1_sender            BYTEA NOT NULL\<newline> ,f_eth1_recipient         BYTEA NOT NULL\<newline> ,f_eth1_gas_used          BIGINT NOT NULL\<newline> ,f_eth1_gas_price         BIGINT NOT NULL\<newline> ,f_deposit_index          BIGINT UNIQUE NOT NULL\<newline> ,f_validator_pubkey       BYTEA NOT NULL\<newline> ,f_withdrawal_credentials BYTEA NOT NULL\<newline> ,f_signature              BYTEA NOT NULL\<newline> ,f_amount                 BIGINT NOT NULL\<newline>)'',
     ''failed to create Ethereum 1 deposits table''),
    (''CREATE UNIQUE INDEX IF NOT EXISTS i_eth1_deposits_1 ON t_eth1_deposits(f_eth1_block_hash, f_eth1_tx_hash, f_eth1_log_index)'',
     ''failed to create Ethereum 1 deposits index 1''),
    (''CREATE INDEX IF NOT EXISTS i_eth1_deposits_2 ON t_eth1_deposits(f_validator_pubkey)'',
     ''failed to create Ethereum 1 deposits index 2''),
    (''CREATE INDEX IF NOT EXISTS i_eth1_deposits_3 ON t_eth1_deposits(f_withdrawal_credentials)'',
     ''failed to create Ethereum 1 deposits index 3''),
    (''CREATE INDEX IF NOT EXISTS i_eth1_deposits_4 ON t_eth1_deposits(f_eth1_sender)'',
     ''failed to create Ethereum 1 deposits index 4''),
    (''CREATE INDEX IF NOT EXISTS i_eth1_deposits_5 ON t_eth1_deposits(f_eth1_recipient)'',
     ''failed to create Ethereum 1 deposits index 5'')]"

definition createETH1Deposits :: "'r env \<Rightarrow> 'r step" where
  "createETH1Deposits E ctx w =
     (case ctx of
        None \<Rightarrow> (Some ErrNoTransaction, w)
      | Some tx \<Rightarrow> exec_each E tx createETH1Deposits_stmts w)"

subsection \<open>The catalogue probe\<close>

text \<open>The query that \<^verbatim>\<open>fmt.Sprintf\<close> builds from the table and the column name.\<close>

definition columnExists_query :: "string \<Rightarrow> string \<Rightarrow> string" where
  "columnExists_query tableName columnName =
     ''SELECT true\<newline>FROM pg_attribute\<newline>WHERE attrelid = '' @ [CHR 0x27] @ tableName @ [CHR 0x27] @
     ''::regclass\<newline>  AND attname = '' @ [CHR 0x27] @ columnName @ [CHR 0x27] @
     ''\<newline>  AND NOT attisdropped''"

text \<open>
  What \<^verbatim>\<open>columnExists\<close> returns for an outcome of the query: an error of the query is
  returned as it is, an error of the scan is wrapped, a scanned row gives \<^verbatim>\<open>found\<close>.
\<close>

fun scanned :: "error + (error + bool) \<Rightarrow> bool \<times> error option" where
  "scanned (Inl err) = (False, Some err)"
| "scanned (Inr (Inl err)) = (False, Some (Wrap err ''failed to scan row''))"
| "scanned (Inr (Inr found)) = (found, None)"

text \<open>The body of \<^verbatim>\<open>columnExists\<close> from the query on, run on the transaction \<open>tx\<close>.\<close>

definition columnExists_body ::
  "'r env \<Rightarrow> txid \<Rightarrow> string \<Rightarrow> string \<Rightarrow> 'r world \<Rightarrow> (bool \<times> error option) \<times> 'r world" where
  "columnExists_body E tx tableName columnName w =
     (case tx_Query E tx (columnExists_query tableName columnName) w of
        (rows, w') \<Rightarrow> (scanned rows, w'))"

text \<open>
  \<^verbatim>\<open>columnExists\<close>: without an ambient transaction it begins one, whose deferred
  cancel runs when the function returns; with one it queries on it.
\<close>

definition columnExists ::
  "'r env \<Rightarrow> ctx \<Rightarrow> string \<Rightarrow> string \<Rightarrow> 'r world \<Rightarrow> (bool \<times> error option) \<times> 'r world" where
  "columnExists E ctx tableName columnName w =
     (case ctx of
        None \<Rightarrow>
          (case BeginTx E ctx w of
             (Inl err, w1) \<Rightarrow> ((False, Some (Wrap err ''failed to begin transaction'')), w1)
           | (Inr tx, w1) \<Rightarrow>
               (case columnExists_body E tx tableName columnName w1 of
                  (res, w2) \<Rightarrow> (res, cancel tx w2)))
      | Some tx \<Rightarrow> columnExists_body E tx tableName columnName w)"

definition addAttestationAggregationIndices_stmts :: "(string \<times> string) list" where
  "addAttestationAggregationIndices_stmts =
   [(''\<newline>ALTER TABLE t_attestations\<newline>ADD COLUMN f_aggregation_indices BIGINT[]\<newline>'',
     ''failed to add f_aggregation_indices to attestations table'')]"

definition addAttestationAggregationIndices :: "'r env \<Rightarrow> 'r step" where
  "addAttestationAggregationIndices E ctx w =
     (case ctx of
        None \<Rightarrow> (Some ErrNoTransaction, w)
      | Some tx \<Rightarrow>
          (case columnExists E ctx ''t_attestations'' ''f_aggregation_indices'' w of
             ((_, Some err), w1) \<Rightarrow>
               (Some (Wrap err ''failed to check if f_aggregation_indices is present in t_attestations''), w1)
           | ((alreadyPresent, None), w1) \<Rightarrow>
               (if alreadyPresent then (None, w1)
                else exec_each E tx addAttestationAggregationIndices_stmts w1)))"

subsection \<open>The version tracker\<close>

definition version :: "'r env \<Rightarrow> ctx \<Rightarrow> 'r world \<Rightarrow> error + uint64" where
  "version E ctx w =
     (case Metadata E ctx ''schema'' w of
        Inl err \<Rightarrow> Inl (Wrap err ''failed to obtain schema metadata'')
      | Inr data \<Rightarrow>
          (if length data = 0 then Inr 0
           else (case json_Unmarshal E data of
                   Inl err \<Rightarrow> Inl (Wrap err ''failed to unmarshal metadata JSON'')
                 | Inr v \<Rightarrow> Inr v)))"

definition setVersion :: "'r env \<Rightarrow> ctx \<Rightarrow> uint64 \<Rightarrow> 'r world \<Rightarrow> error option \<times> 'r world" where
  "setVersion E ctx v w =
     (case ctx of
        None \<Rightarrow> (Some ErrNoTransaction, w)
      | Some tx \<Rightarrow>
          (case json_Marshal E v of
             Inl err \<Rightarrow> (Some (Wrap err ''failed to marshal metadata''), w)
           | Inr data \<Rightarrow> SetMetadata E ctx ''schema'' data w))"

subsection \<open>The registry and the executor\<close>

record 'r upgrade =
  requiresRefetch :: bool
  funcs :: "'r step list"

definition currentVersion :: uint64 where
  "currentVersion = 1"

definition upgrades :: "'r env \<Rightarrow> (uint64 \<rightharpoonup> 'r upgrade)" where
  "upgrades E =
     [1 \<mapsto> \<lparr>requiresRefetch = True,
            funcs = [validatorsEpochNull E,
                     createDeposits E,
                     createChainSpec E,
                     createGenesis E,
                     addProposerSlashingBlockRoots E,
                     createETH1Deposits E,
                     addAttestationAggregationIndices E]\<rparr>]"

text \<open>
  The inner loop of \<^verbatim>\<open>Upgrade\<close> over the functions of one upgrade, \<open>k\<close> counting the
  functions already run and \<open>len\<close> their number. \<open>Some r\<close> is the early return of
  \<^verbatim>\<open>Upgrade\<close> with \<open>r\<close>, after the cancel; \<open>None\<close> is the loop running to its end.
\<close>

fun run_funcs ::
  "'r step list \<Rightarrow> nat \<Rightarrow> nat \<Rightarrow> ctx \<Rightarrow> txid \<Rightarrow> 'r world \<Rightarrow> (bool \<times> error option) option \<times> 'r world" where
  "run_funcs [] k len ctx tid w = (None, w)"
| "run_funcs (upgradeFunc # rest) k len ctx tid w =
     (case upgradeFunc ctx (emit (LogRunning (k + 1) len) w) of
        (Some err, w') \<Rightarrow> (Some (False, Some (Wrap err ''failed to upgrade'')), cancel tid w')
      | (None, w') \<Rightarrow> run_funcs rest (k + 1) len ctx tid w')"

text \<open>
  The outer loop \<^verbatim>\<open>for i := version; i <= currentVersion; i++\<close> on 64-bit unsigned
  integers. \<open>Inl r\<close> is the early return of \<^verbatim>\<open>Upgrade\<close> with \<open>r\<close>, \<open>Inr b\<close> the loop
  running to its end with \<^verbatim>\<open>requiresRefetch\<close> equal to \<open>b\<close>. The loop need not end:
  \<open>i + 1\<close> wraps around, so no \<open>i\<close> exceeds a target of \<open>2^64 - 1\<close>.
\<close>

partial_function (option) upgrade_loop ::
  "(uint64 \<rightharpoonup> 'r upgrade) \<Rightarrow> uint64 \<Rightarrow> ctx \<Rightarrow> txid \<Rightarrow> uint64 \<Rightarrow> bool \<Rightarrow> 'r world
     \<Rightarrow> (((bool \<times> error option) + bool) \<times> 'r world) option" where
  "upgrade_loop ups target ctx tid i refetch w =
     (if i \<le> target then
        (case ups i of
           None \<Rightarrow> upgrade_loop ups target ctx tid (i + 1) refetch (emit (LogUpgrading i) w)
         | Some u \<Rightarrow>
             (case run_funcs (funcs u) 0 (length (funcs u)) ctx tid (emit (LogUpgrading i) w) of
                (Some r, w') \<Rightarrow> Some (Inl r, w')
              | (None, w') \<Rightarrow>
                  upgrade_loop ups target ctx tid (i + 1) (refetch \<or> requiresRefetch u) w'))
      else Some (Inr refetch, w))"

text \<open>
  \<^verbatim>\<open>Upgrade\<close>, with the package variables \<^verbatim>\<open>upgrades\<close> and \<^verbatim>\<open>currentVersion\<close> as
  the arguments \<open>ups\<close> and \<open>target\<close>. \<open>None\<close> is a run that does not return.
\<close>

definition Upgrade ::
  "'r env \<Rightarrow> (uint64 \<rightharpoonup> 'r upgrade) \<Rightarrow> uint64 \<Rightarrow> ctx \<Rightarrow> 'r world
     \<Rightarrow> ((bool \<times> error option) \<times> 'r world) option" where
  "Upgrade E ups target ctx w =
     (case version E ctx w of
        Inl err \<Rightarrow> Some ((False, Some (Wrap err ''failed to obtain version'')), w)
      | Inr v \<Rightarrow>
          (if v = target then Some ((False, None), w)
           else
             (case BeginTx E ctx w of
                (Inl err, w1) \<Rightarrow>
                  Some ((False, Some (Wrap err ''failed to begin upgrade transaction'')), w1)
              | (Inr tid, w1) \<Rightarrow>
                  (case upgrade_loop ups target (Some tid) tid v False w1 of
                     None \<Rightarrow> None
                   | Some (Inl r, w2) \<Rightarrow> Some (r, w2)
                   | Some (Inr refetch, w2) \<Rightarrow>
                       (case setVersion E (Some tid) target w2 of
                          (Some err, w3) \<Rightarrow>
                            Some ((False, Some (Wrap err ''failed to set latest schema version'')),
                                  cancel tid w3)
                        | (None, w3) \<Rightarrow>
                            (case CommitTx E (Some tid) w3 of
                               (Some err, w4) \<Rightarrow>
                                 Some ((False, Some (Wrap err ''failed to commit upgrade transaction'')),
                                       cancel tid w4)
                             | (None, w4) \<Rightarrow> Some ((refetch, None), emit LogComplete w4)))))))"

subsection \<open>A reference environment\<close>

text \<open>
  An in-memory stand-in for the collaborators, used to run the model on concrete
  inputs: nothing fails, the tables are the list of the statements executed, the
  probed column exists once the statement that adds it has run, and the codec writes
  and reads the canonical document \<^verbatim>\<open>{"version":N}\<close>.
\<close>

definition decimal_digits :: string where
  "decimal_digits = ''0123456789''"

fun show_decimal :: "nat \<Rightarrow> string" where
  "show_decimal n =
     (if n < 10 then [decimal_digits ! n]
      else show_decimal (n div 10) @ [decimal_digits ! (n mod 10)])"

declare show_decimal.simps [simp del]

definition digit_value :: "char \<Rightarrow> nat option" where
  "digit_value c =
     (let code = (of_char c :: nat)
      in if 48 \<le> code \<and> code \<le> 57 then Some (code - 48) else None)"

fun read_decimal :: "nat \<Rightarrow> string \<Rightarrow> nat option" where
  "read_decimal acc [] = Some acc"
| "read_decimal acc (c # cs) =
     (case digit_value c of None \<Rightarrow> None | Some k \<Rightarrow> read_decimal (10 * acc + k) cs)"

definition mem_Marshal :: "uint64 \<Rightarrow> error + bytes" where
  \<open>mem_Marshal v = Inr (''{"version":'' @ show_decimal (unat v) @ ''}'')\<close>

definition mem_Unmarshal :: "bytes \<Rightarrow> error + uint64" where
  \<open>mem_Unmarshal data =
     (if 13 \<le> length data \<and> take 11 data = ''{"version":'' \<and> last data = CHR ''}'' then
        (case read_decimal 0 (butlast (drop 11 data)) of
           None \<Rightarrow> Inl (Failure ''invalid character'')
         | Some n \<Rightarrow>
             if n < 2 ^ 64 then Inr (word_of_nat n) else Inl (Failure ''number out of range''))
      else Inl (Failure ''unexpected input''))\<close>

definition mem_env :: "string list env" where
  "mem_env =
     \<lparr>begin_fault = (\<lambda>d. None),
      commit_fault = (\<lambda>d. None),
      exec_sql = (\<lambda>sql d. Inr (d\<lparr>tables := tables d @ [sql]\<rparr>)),
      query_sql = (\<lambda>sql d. Inr (Inr (fst (hd addAttestationAggregationIndices_stmts) \<in> set (tables d)))),
      metadata_fault = (\<lambda>key d. None),
      set_metadata_fault = (\<lambda>key data d. None),
      json_Marshal = mem_Marshal,
      json_Unmarshal = mem_Unmarshal,
      read_slashings = (\<lambda>minSlot maxSlot d. Inr []),
      write_slashing = (\<lambda>ps d. Inr d),
      hash_tree_root = (\<lambda>header. Inr (ParentRoot header))\<rparr>"

text \<open>A database that was never initialised, and one whose metadata holds a document.\<close>

definition fresh_world :: "string list world" where
  "fresh_world =
     \<lparr>persisted = \<lparr>metadata = Map.empty, tables = []\<rparr>,
      pending = Map.empty, nexttx = 0, trace = []\<rparr>"

definition world_with :: "bytes \<Rightarrow> string list world" where
  "world_with doc =
     \<lparr>persisted = \<lparr>metadata = [''schema'' \<mapsto> doc], tables = []\<rparr>,
      pending = Map.empty, nexttx = 0, trace = []\<rparr>"

text \<open>
  An upgrade function is confined when it leaves the committed database alone: whatever
  it does, it does inside a transaction.
\<close>

definition steps_confined :: "(uint64 \<rightharpoonup> 'r upgrade) \<Rightarrow> bool" where
  "steps_confined ups =
     (\<forall>i u. ups i = Some u \<longrightarrow>
        (\<forall>f \<in> set (funcs u). \<forall>c w. persisted (snd (f c w)) = persisted w))"

text \<open>
  A run told by what the upgrade functions returned. \<open>funcs_ok fs k len ctx w w'\<close>:
  called one after the other from the world \<open>w\<close>, each after its log line and with
  the context \<open>ctx\<close>, the functions \<open>fs\<close> all return nil and leave the world \<open>w'\<close>
  (\<open>k\<close> functions of \<open>len\<close> have run before them).
\<close>

inductive funcs_ok ::
  "'r step list \<Rightarrow> nat \<Rightarrow> nat \<Rightarrow> ctx \<Rightarrow> 'r world \<Rightarrow> 'r world \<Rightarrow> bool" where
  funcs_ok_none: "funcs_ok [] k len ctx w w"
| funcs_ok_next:
    "upgradeFunc ctx (emit (LogRunning (k + 1) len) w) = (None, w1) \<Longrightarrow>
     funcs_ok rest (k + 1) len ctx w1 w2 \<Longrightarrow>
     funcs_ok (upgradeFunc # rest) k len ctx w w2"

text \<open>
  \<open>versions_ok ups target ctx i w j w'\<close>: from version \<open>i\<close> and the world \<open>w\<close>, the
  versions before \<open>j\<close> are visited one after the other, none of them above the
  target, every function of every upgrade registered for them returns nil, and the
  world is \<open>w'\<close> when version \<open>j\<close> is next.
\<close>

inductive versions_ok ::
  "(uint64 \<rightharpoonup> 'r upgrade) \<Rightarrow> uint64 \<Rightarrow> ctx \<Rightarrow> uint64 \<Rightarrow> 'r world \<Rightarrow> uint64 \<Rightarrow> 'r world \<Rightarrow> bool" where
  versions_ok_here: "versions_ok ups target ctx i w i w"
| versions_ok_absent:
    "i \<le> target \<Longrightarrow> ups i = None \<Longrightarrow>
     versions_ok ups target ctx (i + 1) (emit (LogUpgrading i) w) j w' \<Longrightarrow>
     versions_ok ups target ctx i w j w'"
| versions_ok_present:
    "i \<le> target \<Longrightarrow> ups i = Some u \<Longrightarrow>
     funcs_ok (funcs u) 0 (length (funcs u)) ctx (emit (LogUpgrading i) w) w1 \<Longrightarrow>
     versions_ok ups target ctx (i + 1) w1 j w' \<Longrightarrow>
     versions_ok ups target ctx i w j w'"

text \<open>
  Two further registries, built from the upgrade functions above: one with a second
  version, one whose three versions carry the flags false, true, false.
\<close>

definition two_versions :: "'r env \<Rightarrow> (uint64 \<rightharpoonup> 'r upgrade)" where
  "two_versions E =
     [1 \<mapsto> \<lparr>requiresRefetch = True, funcs = [createChainSpec E]\<rparr>,
      2 \<mapsto> \<lparr>requiresRefetch = False, funcs = [createGenesis E]\<rparr>]"

definition three_versions :: "'r env \<Rightarrow> (uint64 \<rightharpoonup> 'r upgrade)" where
  "three_versions E =
     [1 \<mapsto> \<lparr>requiresRefetch = False, funcs = [createChainSpec E]\<rparr>,
      2 \<mapsto> \<lparr>requiresRefetch = True, funcs = [createGenesis E]\<rparr>,
      3 \<mapsto> \<lparr>requiresRefetch = False, funcs = [createDeposits E]\<rparr>]"

text \<open>
  Reference environments in which one collaborator fails: the engine refuses to
  create the deposits table, the commit is refused, the metadata store cannot be
  reached.
\<close>

definition deposits_refused_env :: "string list env" where
  "deposits_refused_env =
     mem_env\<lparr>exec_sql :=
       (\<lambda>sql d. if sql = fst (hd createDeposits_stmts) then Inl (Failure ''permission denied'')
                else Inr (d\<lparr>tables := tables d @ [sql]\<rparr>))\<rparr>"

definition no_commit_env :: "string list env" where
  "no_commit_env = mem_env\<lparr>commit_fault := (\<lambda>d. Some (Failure ''connection reset''))\<rparr>"

definition unreachable_env :: "string list env" where
  "unreachable_env = mem_env\<lparr>metadata_fault := (\<lambda>key d. Some (Failure ''connection refused''))\<rparr>"

section \<open>Properties\<close>

subsection \<open>Unfolding\<close>

lemmas step_defs = validatorsEpochNull_def createDeposits_def createChainSpec_def createGenesis_def
    addProposerSlashingBlockRoots_def createETH1Deposits_def addAttestationAggregationIndices_def
lemmas svc_defs = BeginTx_def cancel_def CommitTx_def Metadata_def read_metadata_def SetMetadata_def
   ProposerSlashingsForSlotRange_def SetProposerSlashing_def tx_Exec_def tx_Query_def emit_def exec_or_wrap_def
   columnExists_def columnExists_body_def version_def setVersion_def
lemmas stmt_defs = validatorsEpochNull_stmts_def createDeposits_stmts_def createChainSpec_stmts_def createGenesis_stmts_def
   addProposerSlashingBlockRoots_add_def addProposerSlashingBlockRoots_tighten_def createETH1Deposits_stmts_def
   addAttestationAggregationIndices_stmts_def
lemmas mem_defs = mem_env_def fresh_world_def world_with_def mem_Marshal_def mem_Unmarshal_def
  show_decimal.simps decimal_digits_def digit_value_def

text \<open>
  The equation of the outer loop, one case at a time, so that rewriting with it stops
  where the loop does.
\<close>

lemma upgrade_loop_done:
  "\<not> i \<le> target \<Longrightarrow> upgrade_loop ups target ctx tid i refetch w = Some (Inr refetch, w)"
  by (subst upgrade_loop.simps) simp

lemma upgrade_loop_absent:
  "i \<le> target \<Longrightarrow> ups i = None \<Longrightarrow>
   upgrade_loop ups target ctx tid i refetch w =
   upgrade_loop ups target ctx tid (i + 1) refetch (emit (LogUpgrading i) w)"
  by (subst upgrade_loop.simps) simp

lemma upgrade_loop_present:
  "i \<le> target \<Longrightarrow> ups i = Some u \<Longrightarrow>
   upgrade_loop ups target ctx tid i refetch w =
   (case run_funcs (funcs u) 0 (length (funcs u)) ctx tid (emit (LogUpgrading i) w) of
      (Some r, w') \<Rightarrow> Some (Inl r, w')
    | (None, w') \<Rightarrow> upgrade_loop ups target ctx tid (i + 1) (refetch \<or> requiresRefetch u) w')"
  by (subst upgrade_loop.simps) simp

lemmas loop_eval = upgrade_loop_done upgrade_loop_absent upgrade_loop_present word_le_nat_alt

lemmas run_eval = Upgrade_def loop_eval svc_defs step_defs stmt_defs mem_defs Let_def
  upgrades_def currentVersion_def

subsection \<open>The committed database is out of reach of a transaction\<close>

lemma BeginTx_persisted: "persisted (snd (BeginTx E ctx w)) = persisted w"
  by (simp add: BeginTx_def emit_def Let_def split: option.splits)

lemma tx_Exec_persisted: "persisted (snd (tx_Exec E t sql w)) = persisted w"
  by (simp add: tx_Exec_def emit_def split: option.splits sum.splits)

lemma exec_each_persisted: "persisted (snd (exec_each E t stmts w)) = persisted w"
proof (induction stmts arbitrary: w)
  case Nil
  then show ?case by simp
next
  case (Cons stmt stmts)
  obtain e w1 where x: "tx_Exec E t (fst stmt) w = (e, w1)" by force
  with tx_Exec_persisted [of E t "fst stmt" w] have "persisted w1 = persisted w" by simp
  with x Cons.IH [of w1] show ?case by (cases e) (simp_all add: exec_or_wrap_def)
qed

lemma SetProposerSlashing_persisted: "persisted (snd (SetProposerSlashing E ctx ps w)) = persisted w"
  by (simp add: SetProposerSlashing_def emit_def split: option.splits sum.splits)

lemma backfill_persisted: "persisted (snd (backfill E ctx pss w)) = persisted w"
proof (induction pss arbitrary: w)
  case Nil
  then show ?case by simp
next
  case (Cons ps pss)
  show ?case
    using Cons.IH SetProposerSlashing_persisted [of E ctx _ w]
    by (auto split: sum.splits option.splits prod.splits) (metis snd_conv)+
qed

lemma columnExists_persisted: "persisted (snd (columnExists E ctx t c w)) = persisted w"
  by (simp add: columnExists_def columnExists_body_def BeginTx_def tx_Query_def cancel_def emit_def Let_def
      split: option.splits sum.splits prod.splits)

lemma validatorsEpochNull_persisted: "persisted (snd (validatorsEpochNull E c w)) = persisted w"
  by (simp add: validatorsEpochNull_def exec_each_persisted split: option.splits)
lemma createDeposits_persisted: "persisted (snd (createDeposits E c w)) = persisted w"
  by (simp add: createDeposits_def exec_each_persisted split: option.splits)
lemma createChainSpec_persisted: "persisted (snd (createChainSpec E c w)) = persisted w"
  by (simp add: createChainSpec_def exec_each_persisted split: option.splits)
lemma createGenesis_persisted: "persisted (snd (createGenesis E c w)) = persisted w"
  by (simp add: createGenesis_def exec_each_persisted split: option.splits)
lemma createETH1Deposits_persisted: "persisted (snd (createETH1Deposits E c w)) = persisted w"
  by (simp add: createETH1Deposits_def exec_each_persisted split: option.splits)

lemma addProposerSlashingBlockRoots_persisted:
  "persisted (snd (addProposerSlashingBlockRoots E c w)) = persisted w"
proof (cases c)
  case None
  then show ?thesis by (simp add: addProposerSlashingBlockRoots_def)
next
  case (Some tx)
  obtain e1 w1 where a: "exec_each E tx addProposerSlashingBlockRoots_add w = (e1, w1)" by force
  with exec_each_persisted [of E tx addProposerSlashingBlockRoots_add w]
  have p1: "persisted w1 = persisted w" by simp
  show ?thesis
  proof (cases e1)
    case (Some err)
    with a p1 \<open>c = Some tx\<close> show ?thesis by (simp add: addProposerSlashingBlockRoots_def)
  next
    case None
    show ?thesis
    proof (cases "ProposerSlashingsForSlotRange E c 0 0x7fffffffffffffff w1")
      case (Inl err)
      with a p1 None \<open>c = Some tx\<close> show ?thesis by (simp add: addProposerSlashingBlockRoots_def)
    next
      case (Inr pss)
      obtain e2 w2 where b: "backfill E c pss w1 = (e2, w2)" by force
      with backfill_persisted [of E c pss w1] p1 have p2: "persisted w2 = persisted w" by simp
      show ?thesis
        using a None Inr b p2 \<open>c = Some tx\<close>
          exec_each_persisted [of E tx addProposerSlashingBlockRoots_tighten w2]
        by (cases e2) (simp_all add: addProposerSlashingBlockRoots_def)
    qed
  qed
qed

lemma addAttestationAggregationIndices_persisted:
  "persisted (snd (addAttestationAggregationIndices E c w)) = persisted w"
proof (cases c)
  case None
  then show ?thesis by (simp add: addAttestationAggregationIndices_def)
next
  case (Some tx)
  obtain found e w1 where a: "columnExists E c ''t_attestations'' ''f_aggregation_indices'' w = ((found, e), w1)"
    by (metis surj_pair)
  with columnExists_persisted [of E c "''t_attestations''" "''f_aggregation_indices''" w]
  have p1: "persisted w1 = persisted w" by simp
  show ?thesis
    using a p1 Some exec_each_persisted [of E tx addAttestationAggregationIndices_stmts w1]
    by (cases e) (simp_all add: addAttestationAggregationIndices_def)
qed

lemma upgrades_confined: "steps_confined (upgrades E)"
  by (auto simp add: steps_confined_def upgrades_def validatorsEpochNull_persisted createDeposits_persisted
      createChainSpec_persisted createGenesis_persisted addProposerSlashingBlockRoots_persisted
      createETH1Deposits_persisted addAttestationAggregationIndices_persisted split: if_splits)

lemma run_funcs_persisted:
  "\<forall>f \<in> set fs. \<forall>c w. persisted (snd (f c w)) = persisted w \<Longrightarrow>
   persisted (snd (run_funcs fs k n ctx tid w)) = persisted w"
proof (induction fs arbitrary: k w)
  case Nil
  then show ?case by simp
next
  case (Cons f fs)
  obtain e w1 where f: "f ctx (emit (LogRunning (k + 1) n) w) = (e, w1)" by force
  from Cons.prems have "persisted (snd (f ctx (emit (LogRunning (k + 1) n) w))) = persisted (emit (LogRunning (k + 1) n) w)"
    by simp
  with f have p1: "persisted w1 = persisted w" by (simp add: emit_def)
  show ?case
  proof (cases e)
    case None
    from Cons.prems have "\<forall>f \<in> set fs. \<forall>c w. persisted (snd (f c w)) = persisted w" by simp
    from Cons.IH [OF this, of "k + 1" w1] f None p1 show ?thesis by simp
  next
    case (Some err)
    with f p1 show ?thesis by (simp add: cancel_def emit_def)
  qed
qed

lemma upgrade_loop_persisted:
  assumes "upgrade_loop ups target ctx tid i refetch w = Some y"
  shows "steps_confined ups \<longrightarrow> persisted (snd y) = persisted w"
proof (rule upgrade_loop.raw_induct [where P = "\<lambda>ups target ctx tid i refetch w y.
    steps_confined ups \<longrightarrow> persisted (snd y) = persisted w", OF _ assms], goal_cases)
  case (1 loop ups target ctx tid i refetch w y)
  show ?case
  proof
    assume conf: "steps_confined ups"
    show "persisted (snd y) = persisted w"
    proof (cases "i \<le> target")
      case False
      with 1(2) show ?thesis by auto
    next
      case le: True
      show ?thesis
      proof (cases "ups i")
        case None
        with le 1(2) have "loop ups target ctx tid (i + 1) refetch (emit (LogUpgrading i) w) = Some y"
          by simp
        from 1(1) [OF this] conf show ?thesis by (simp add: emit_def)
      next
        case (Some u)
        obtain e w1 where rf: "run_funcs (funcs u) 0 (length (funcs u)) ctx tid (emit (LogUpgrading i) w) = (e, w1)"
          by force
        from conf Some have "\<forall>f \<in> set (funcs u). \<forall>c w. persisted (snd (f c w)) = persisted w"
          unfolding steps_confined_def by blast
        from run_funcs_persisted [OF this, of 0 "length (funcs u)" ctx tid "emit (LogUpgrading i) w"] rf
        have p1: "persisted w1 = persisted w" by (simp add: emit_def)
        show ?thesis
        proof (cases e)
          case None
          with rf le 1(2) Some
          have "loop ups target ctx tid (i + 1) (refetch \<or> requiresRefetch u) w1 = Some y" by simp
          from 1(1) [OF this] conf p1 show ?thesis by simp
        next
          case (Some r')
          with rf le 1(2) \<open>ups i = Some u\<close> have "y = (Inl r', w1)" by auto
          with p1 show ?thesis by simp
        qed
      qed
    qed
  qed
qed

subsection \<open>The loops\<close>

lemma ex_range_split:
  fixes i target :: uint64
  assumes "i \<le> target" "target \<noteq> - 1"
  shows "(\<exists>j. i \<le> j \<and> j \<le> target \<and> Q j) = (Q i \<or> (\<exists>j. i + 1 \<le> j \<and> j \<le> target \<and> Q j))"
proof -
  have "i \<noteq> - 1" using assms by (metis word_order.extremum_unique)
  then have "(i + 1 \<le> j) = (i < j)" for j by (simp add: inc_less_eq_iff)
  then show ?thesis using assms(1) by (auto simp: order_le_less)
qed

lemma run_funcs_early:
  "run_funcs fs k n ctx tid w = (Some r, w') \<Longrightarrow>
   \<exists>err f wa wb. r = (False, Some (Wrap err ''failed to upgrade'')) \<and> f \<in> set fs \<and>
      f ctx wa = (Some err, wb) \<and> w' = cancel tid wb"
proof (induction fs arbitrary: k w)
  case Nil
  then show ?case by simp
next
  case (Cons f fs)
  obtain e w1 where f: "f ctx (emit (LogRunning (k + 1) n) w) = (e, w1)" by force
  show ?case
  proof (cases e)
    case None
    with Cons.prems f have "run_funcs fs (k + 1) n ctx tid w1 = (Some r, w')" by simp
    from Cons.IH [OF this] show ?thesis by auto
  next
    case (Some err)
    with Cons.prems f have "r = (False, Some (Wrap err ''failed to upgrade''))" "w' = cancel tid w1" by auto
    with f Some show ?thesis by auto
  qed
qed

text \<open>
  The inner loop runs the functions in the order of the list, and stops at the first
  that fails: when those before \<open>f\<close> succeed and \<open>f\<close> returns \<open>err\<close>, the functions
  after \<open>f\<close> are not run, the transaction is cancelled and the error is wrapped.
\<close>

lemma run_funcs_first_failure:
  assumes "run_funcs pre k n ctx tid w = (None, w1)"
    and "f ctx (emit (LogRunning (k + length pre + 1) n) w1) = (Some err, w2)"
  shows "run_funcs (pre @ f # post) k n ctx tid w =
           (Some (False, Some (Wrap err ''failed to upgrade'')), cancel tid w2)"
  using assms
proof (induction pre arbitrary: k w)
  case Nil
  then show ?case by simp
next
  case (Cons g pre)
  obtain e wg where g: "g ctx (emit (LogRunning (k + 1) n) w) = (e, wg)" by force
  with Cons.prems(1) have e: "e = None" by (cases e) auto
  with g Cons.prems(1) have rest: "run_funcs pre (k + 1) n ctx tid wg = (None, w1)" by simp
  from Cons.prems(2) have "f ctx (emit (LogRunning (k + 1 + length pre + 1) n) w1) = (Some err, w2)"
    by (simp add: add.commute add.left_commute)
  from Cons.IH [OF rest this] g e show ?case by simp
qed

text \<open>
  A run told by \<open>funcs_ok\<close> and \<open>versions_ok\<close> is the run of the two loops.
\<close>

lemma funcs_ok_run_funcs:
  "funcs_ok fs k n ctx w w' \<Longrightarrow>
   run_funcs (fs @ rest) k n ctx tid w = run_funcs rest (k + length fs) n ctx tid w'"
  by (induction rule: funcs_ok.induct) simp_all

lemma versions_ok_upgrade_loop:
  "versions_ok ups target ctx i w j w' \<Longrightarrow>
   \<exists>r'. upgrade_loop ups target ctx tid i r w = upgrade_loop ups target ctx tid j r' w'"
proof (induction arbitrary: r rule: versions_ok.induct)
  case (versions_ok_here ups target ctx i w)
  show ?case by blast
next
  case (versions_ok_absent i target ups ctx w j w')
  from versions_ok_absent.IH [of r] versions_ok_absent.hyps(1,2) show ?case
    by (simp add: upgrade_loop_absent)
next
  case (versions_ok_present i target ups u ctx w w1 j w')
  from funcs_ok_run_funcs [OF versions_ok_present.hyps(3), of "[]" tid]
  have "run_funcs (funcs u) 0 (length (funcs u)) ctx tid (emit (LogUpgrading i) w) = (None, w1)"
    by simp
  with versions_ok_present.IH [of "r \<or> requiresRefetch u"] versions_ok_present.hyps(1,2) show ?case
    by (simp add: upgrade_loop_present)
qed

lemma upgrade_loop_early:
  assumes "upgrade_loop ups target ctx tid i refetch w = Some y"
  shows "\<forall>r w'. y = (Inl r, w') \<longrightarrow>
    (\<exists>err j u f wa wb. r = (False, Some (Wrap err ''failed to upgrade'')) \<and> ups j = Some u \<and>
       f \<in> set (funcs u) \<and> f ctx wa = (Some err, wb) \<and> w' = cancel tid wb)"
proof (rule upgrade_loop.raw_induct [where P = "\<lambda>ups target ctx tid i refetch w y.
    \<forall>r w'. y = (Inl r, w') \<longrightarrow>
    (\<exists>err j u f wa wb. r = (False, Some (Wrap err ''failed to upgrade'')) \<and> ups j = Some u \<and>
       f \<in> set (funcs u) \<and> f ctx wa = (Some err, wb) \<and> w' = cancel tid wb)", OF _ assms], goal_cases)
  case (1 loop ups target ctx tid i refetch w y)
  show ?case
  proof (intro allI impI)
    fix r w' assume y: "y = (Inl r, w')"
    with 1(2) have le: "i \<le> target" by (auto split: if_splits)
    show "\<exists>err j u f wa wb. r = (False, Some (Wrap err ''failed to upgrade'')) \<and> ups j = Some u \<and>
       f \<in> set (funcs u) \<and> f ctx wa = (Some err, wb) \<and> w' = cancel tid wb"
    proof (cases "ups i")
      case None
      with le 1(2) y have "loop ups target ctx tid (i + 1) refetch (emit (LogUpgrading i) w) = Some (Inl r, w')"
        by simp
      from 1(1) [OF this] show ?thesis by simp
    next
      case (Some u)
      obtain e w1 where rf: "run_funcs (funcs u) 0 (length (funcs u)) ctx tid (emit (LogUpgrading i) w) = (e, w1)"
        by force
      show ?thesis
      proof (cases e)
        case None
        with rf le 1(2) y Some
        have "loop ups target ctx tid (i + 1) (refetch \<or> requiresRefetch u) w1 = Some (Inl r, w')" by simp
        from 1(1) [OF this] show ?thesis by simp
      next
        case (Some r')
        with rf le 1(2) y \<open>ups i = Some u\<close> have "r' = r" "w1 = w'" by auto
        with rf Some have "run_funcs (funcs u) 0 (length (funcs u)) ctx tid (emit (LogUpgrading i) w) = (Some r, w')"
          by simp
        from run_funcs_early [OF this] \<open>ups i = Some u\<close> show ?thesis by blast
      qed
    qed
  qed
qed

lemma upgrade_loop_refetch:
  assumes "upgrade_loop ups target ctx tid i refetch w = Some y"
  shows "\<forall>b w'. y = (Inr b, w') \<longrightarrow> target \<noteq> - 1 \<and> b = (refetch \<or> (\<exists>j. i \<le> j \<and> j \<le> target \<and> (\<exists>u. ups j = Some u \<and> requiresRefetch u)))"
proof (rule upgrade_loop.raw_induct[where P = "\<lambda>ups target ctx tid i refetch w y. \<forall>b w'. y = (Inr b, w') \<longrightarrow> target \<noteq> - 1 \<and> b = (refetch \<or> (\<exists>j. i \<le> j \<and> j \<le> target \<and> (\<exists>u. ups j = Some u \<and> requiresRefetch u)))", OF _ assms], goal_cases)
  case (1 loop ups target ctx tid i refetch w y)
  show ?case
  proof (cases "i \<le> target")
    case False
    then have "target \<noteq> - 1" by auto
    with False 1(2) show ?thesis by auto
  next
    case True
    show ?thesis
    proof (intro allI impI)
      fix b w' assume y: "y = (Inr b, w')"
      show "target \<noteq> - 1 \<and> b = (refetch \<or> (\<exists>j. i \<le> j \<and> j \<le> target \<and> (\<exists>u. ups j = Some u \<and> requiresRefetch u)))"
      proof (cases "ups i")
        case None
        with True 1(2) y have "loop ups target ctx tid (i + 1) refetch (emit (LogUpgrading i) w) = Some (Inr b, w')" by simp
        from 1(1)[OF this] have t: "target \<noteq> - 1" and b: "b = (refetch \<or> (\<exists>j. i + 1 \<le> j \<and> j \<le> target \<and> (\<exists>u. ups j = Some u \<and> requiresRefetch u)))" by auto
        show ?thesis using t b None by (simp add: ex_range_split[OF True t])
      next
        case (Some u)
        obtain r w1 where rf: "run_funcs (funcs u) 0 (length (funcs u)) ctx tid (emit (LogUpgrading i) w) = (r, w1)" by force
        with True 1(2) y Some have r: "r = None" by (cases r) auto
        with rf True 1(2) y Some have "loop ups target ctx tid (i + 1) (refetch \<or> requiresRefetch u) w1 = Some (Inr b, w')" by simp
        from 1(1)[OF this] have t: "target \<noteq> - 1" and b: "b = ((refetch \<or> requiresRefetch u) \<or> (\<exists>j. i + 1 \<le> j \<and> j \<le> target \<and> (\<exists>u. ups j = Some u \<and> requiresRefetch u)))" by auto
        show ?thesis using t b Some by (auto simp add: ex_range_split[OF True t])
      qed
    qed
  qed
qed

text \<open>The loop ends, and \<^verbatim>\<open>Upgrade\<close> returns, for every target below \<open>2^64 - 1\<close>.\<close>

lemma upgrade_loop_returns:
  assumes "target \<noteq> - 1"
  shows "\<exists>y. upgrade_loop ups target ctx tid i refetch w = Some y"
proof (induction "Suc (unat target) - unat i" arbitrary: i refetch w)
  case 0
  then have "\<not> i \<le> target" by (simp add: word_le_nat_alt)
  then show ?case by (simp add: upgrade_loop_done)
next
  case (Suc n)
  show ?case
  proof (cases "i \<le> target")
    case False
    then show ?thesis by (simp add: upgrade_loop_done)
  next
    case True
    with assms have "i \<noteq> - 1" by (metis word_order.extremum_unique)
    then have "i + 1 \<noteq> 0" by (metis add.commute add_eq_0_iff)
    then have "unat (i + 1) = Suc (unat i)" by (metis add.commute unatSuc)
    with Suc.hyps(2) have m: "n = Suc (unat target) - unat (i + 1)" by simp
    show ?thesis
    proof (cases "ups i")
      case None
      with True Suc.hyps(1) [OF m] show ?thesis by (simp add: upgrade_loop_absent)
    next
      case (Some u)
      obtain e w1 where "run_funcs (funcs u) 0 (length (funcs u)) ctx tid (emit (LogUpgrading i) w) = (e, w1)"
        by force
      with True Some Suc.hyps(1) [OF m] show ?thesis
        by (cases e) (simp_all add: upgrade_loop_present)
    qed
  qed
qed

lemma Upgrade_returns:
  assumes "target \<noteq> - 1"
  shows "\<exists>r. Upgrade E ups target ctx w = Some r"
proof (cases "version E ctx w")
  case (Inl err)
  then show ?thesis by (auto simp add: Upgrade_def)
next
  case (Inr v)
  obtain bt w1 where tx: "BeginTx E ctx w = (bt, w1)" by force
  show ?thesis
  proof (cases bt)
    case (Inl err)
    with Inr tx show ?thesis by (auto simp add: Upgrade_def)
  next
    case (Inr tid)
    from upgrade_loop_returns [OF assms] obtain lr w2
      where loop: "upgrade_loop ups target (Some tid) tid v False w1 = Some (lr, w2)" by fastforce
    obtain e3 w3 where sv: "setVersion E (Some tid) target w2 = (e3, w3)" by force
    obtain e4 w4 where cm: "CommitTx E (Some tid) w3 = (e4, w4)" by force
    from \<open>version E ctx w = Inr v\<close> tx Inr loop sv cm show ?thesis
      by (cases lr; cases e3; cases e4) (auto simp add: Upgrade_def)
  qed
qed
subsection \<open>A successful run\<close>

lemma Upgrade_success_cases:
  assumes run: "Upgrade E ups target ctx w = Some ((b, None), w')" and v: "version E ctx w = Inr v"
    and ne: "v \<noteq> target"
  shows "\<exists>tid w1 w2 w3 w4. BeginTx E ctx w = (Inr tid, w1)
     \<and> upgrade_loop ups target (Some tid) tid v False w1 = Some (Inr b, w2)
     \<and> setVersion E (Some tid) target w2 = (None, w3)
     \<and> CommitTx E (Some tid) w3 = (None, w4) \<and> w' = emit LogComplete w4"
proof -
  obtain bt w1 where tx: "BeginTx E ctx w = (bt, w1)" by force
  from run v ne tx obtain tid where bt: "bt = Inr tid"
    by (cases bt) (auto simp add: Upgrade_def)
  from run v ne tx bt obtain y where loop: "upgrade_loop ups target (Some tid) tid v False w1 = Some y"
    by (cases "upgrade_loop ups target (Some tid) tid v False w1") (auto simp add: Upgrade_def)
  obtain lr w2 where y: "y = (lr, w2)" by force
  have "\<exists>b'. lr = Inr b'"
  proof (cases lr)
    case (Inl r)
    with upgrade_loop_early [OF loop] y obtain err where "r = (False, Some (Wrap err ''failed to upgrade''))"
      by blast
    with run v ne tx bt loop y Inl show ?thesis by (simp add: Upgrade_def)
  next
    case (Inr b')
    then show ?thesis by simp
  qed
  then obtain b' where lr: "lr = Inr b'" by blast
  obtain e3 w3 where sv: "setVersion E (Some tid) target w2 = (e3, w3)" by force
  from run v ne tx bt loop y lr sv have e3: "e3 = None" by (cases e3) (auto simp add: Upgrade_def)
  obtain e4 w4 where cm: "CommitTx E (Some tid) w3 = (e4, w4)" by force
  from run v ne tx bt loop y lr sv e3 cm have e4: "e4 = None" by (cases e4) (auto simp add: Upgrade_def)
  from run v ne tx bt loop y lr sv e3 cm e4 have "b' = b" "w' = emit LogComplete w4"
    by (auto simp add: Upgrade_def)
  with tx bt loop y lr sv e3 cm e4 show ?thesis by auto
qed

lemma Upgrade_success_persisted:
  assumes run: "Upgrade E ups target ctx w = Some ((b, None), w')" and v: "version E ctx w = Inr v"
    and ne: "v \<noteq> target"
  shows "\<exists>data. json_Marshal E target = Inr data \<and> metadata (persisted w') ''schema'' = Some data"
proof -
  from Upgrade_success_cases [OF run v ne]
  obtain tid w1 w2 w3 w4 where sv: "setVersion E (Some tid) target w2 = (None, w3)"
    and cm: "CommitTx E (Some tid) w3 = (None, w4)" and w': "w' = emit LogComplete w4" by blast
  from sv obtain data where m: "json_Marshal E target = Inr data"
    and sm: "SetMetadata E (Some tid) ''schema'' data w2 = (None, w3)"
    by (cases "json_Marshal E target") (auto simp add: setVersion_def)
  from sm obtain d where w3: "pending w3 tid = Some (d\<lparr>metadata := (metadata d)(''schema'' \<mapsto> data)\<rparr>)"
    by (cases "pending w2 tid"; cases "set_metadata_fault E ''schema'' data (the (pending w2 tid))")
       (auto simp add: SetMetadata_def emit_def)
  from cm w3 have "persisted w4 = d\<lparr>metadata := (metadata d)(''schema'' \<mapsto> data)\<rparr>"
    by (auto simp add: CommitTx_def emit_def split: option.splits)
  with w' m show ?thesis by (simp add: emit_def)
qed

text \<open>
  The shipped registry on a database that was never initialised, in the reference
  environment: the run succeeds, asks for a refetch, visits version 0 and then
  version 1, leaves the version document of version 1 and the 23 statements of the
  seven upgrade functions behind, and closes its transaction.
\<close>

lemma shipped_fresh_run:
  \<open>\<exists>w'. Upgrade mem_env (upgrades mem_env) currentVersion None fresh_world = Some ((True, None), w')
     \<and> take 3 (trace w') = [BeginTxEv 0, LogUpgrading 0, LogUpgrading 1]
     \<and> metadata (persisted w') ''schema'' = Some ''{"version":1}''
     \<and> length (tables (persisted w')) = 23
     \<and> pending w' = Map.empty\<close>
  by (simp add: run_eval)

section \<open>The claims\<close>

subsection \<open>C1: where the loop starts\<close>

text \<open>
  C1 says that, from a persisted version \<open>v\<close> below the target, \<^verbatim>\<open>Upgrade\<close> visits
  the versions \<open>v + 1\<close> to the target and does not execute the upgrade registered for
  \<open>v\<close> itself. The loop of the source starts at \<open>v\<close>. With upgrades registered for
  versions 1 and 2, a target of 2 and a database at version 1, the run executes the
  upgrade of version 1 again before that of version 2, and reports the refetch flag of
  version 1. With the shipped registry and a database that was never initialised, the
  loop visits version 0 before version 1.
\<close>

theorem Upgrade_starts_at_persisted_version:
  \<open>map_option (\<lambda>r. (fst r, trace (snd r)))
     (Upgrade mem_env (two_versions mem_env) 2 None (world_with ''{"version":1}'')) =
   Some ((True, None),
         [BeginTxEv 0,
          LogUpgrading 1, LogRunning 1 1, ExecEv 0 (fst (hd createChainSpec_stmts)),
          LogUpgrading 2, LogRunning 1 1, ExecEv 0 (fst (hd createGenesis_stmts)),
          SetMetadataEv 0 ''schema'' ''{"version":2}'', CommitEv 0, LogComplete])
   \<and> map_option (\<lambda>r. take 3 (trace (snd r)))
       (Upgrade mem_env (upgrades mem_env) currentVersion None fresh_world) =
     Some [BeginTxEv 0, LogUpgrading 0, LogUpgrading 1]\<close>
proof
  show \<open>map_option (\<lambda>r. (fst r, trace (snd r)))
     (Upgrade mem_env (two_versions mem_env) 2 None (world_with ''{"version":1}'')) =
   Some ((True, None),
         [BeginTxEv 0,
          LogUpgrading 1, LogRunning 1 1, ExecEv 0 (fst (hd createChainSpec_stmts)),
          LogUpgrading 2, LogRunning 1 1, ExecEv 0 (fst (hd createGenesis_stmts)),
          SetMetadataEv 0 ''schema'' ''{"version":2}'', CommitEv 0, LogComplete])\<close>
    by (simp add: run_eval two_versions_def)
next
  from shipped_fresh_run
  show "map_option (\<lambda>r. take 3 (trace (snd r)))
       (Upgrade mem_env (upgrades mem_env) currentVersion None fresh_world) =
     Some [BeginTxEv 0, LogUpgrading 0, LogUpgrading 1]"
    by auto
qed

subsection \<open>C2: a failing upgrade function\<close>

text \<open>
  C2: when an upgrade function returns an error, \<^verbatim>\<open>Upgrade\<close> cancels the transaction
  before it returns, returns that error wrapped, and the persisted version is what it
  was before the run.

  The run is told by what the upgrade functions returned: the version read is not
  the target, a transaction \<open>tid\<close> was begun, every function of the versions visited
  before version \<open>i\<close> returned nil, and so did the functions \<open>pre\<close> that come before
  \<open>f\<close> in the upgrade of version \<open>i\<close>; then \<open>f\<close>, called in the world they left,
  returned the error \<open>err\<close> and left the world \<open>wb\<close>. Then \<^verbatim>\<open>Upgrade\<close> returns
  \<open>(False, Some (Wrap err ''failed to upgrade''))\<close>; the functions after \<open>f\<close> are not
  run; the cancel of the transaction is the one thing done after \<open>f\<close>, and the
  transaction is closed; and for confined upgrade functions the committed database,
  and with it the version read from it, is the one before the run.
\<close>

theorem Upgrade_step_failure_rolls_back:
  assumes confined: "steps_confined ups"
    and v: "version E ctx w = Inr v" and ne: "v \<noteq> target"
    and tx: "BeginTx E ctx w = (Inr tid, w1)"
    and before: "versions_ok ups target (Some tid) v w1 i wi"
    and here: "i \<le> target" "ups i = Some u" "funcs u = pre @ f # post"
    and pre: "funcs_ok pre 0 (length (funcs u)) (Some tid) (emit (LogUpgrading i) wi) wa"
    and fails: "f (Some tid) (emit (LogRunning (length pre + 1) (length (funcs u))) wa) = (Some err, wb)"
  shows "Upgrade E ups target ctx w =
           Some ((False, Some (Wrap err ''failed to upgrade'')), cancel tid wb)
         \<and> trace (cancel tid wb) = trace wb @ [CancelEv tid]
         \<and> pending (cancel tid wb) tid = None
         \<and> persisted (cancel tid wb) = persisted w
         \<and> version E None (cancel tid wb) = version E None w"
proof -
  from funcs_ok_run_funcs [OF pre, of "f # post" tid] fails here(3)
  have inner: "run_funcs (funcs u) 0 (length (funcs u)) (Some tid) tid (emit (LogUpgrading i) wi) =
                 (Some (False, Some (Wrap err ''failed to upgrade'')), cancel tid wb)"
    by simp
  from versions_ok_upgrade_loop [OF before, of tid False]
  obtain r' where "upgrade_loop ups target (Some tid) tid v False w1 =
                     upgrade_loop ups target (Some tid) tid i r' wi" by blast
  with inner here(1,2)
  have loop: "upgrade_loop ups target (Some tid) tid v False w1 =
                Some (Inl (False, Some (Wrap err ''failed to upgrade'')), cancel tid wb)"
    by (simp add: upgrade_loop_present)
  with v ne tx
  have run: "Upgrade E ups target ctx w =
               Some ((False, Some (Wrap err ''failed to upgrade'')), cancel tid wb)"
    by (simp add: Upgrade_def)
  from upgrade_loop_persisted [OF loop] confined have "persisted (cancel tid wb) = persisted w1" by simp
  moreover from BeginTx_persisted [of E ctx w] tx have "persisted w1 = persisted w" by simp
  ultimately have p: "persisted (cancel tid wb) = persisted w" by simp
  then have same: "version E None (cancel tid wb) = version E None w"
    by (simp add: version_def Metadata_def)
  have "trace (cancel tid wb) = trace wb @ [CancelEv tid]" "pending (cancel tid wb) tid = None"
    by (simp_all add: cancel_def emit_def)
  with run p same show ?thesis by blast
qed

text \<open>
  The shipped registry on a database that was never initialised, where the engine
  refuses to create the deposits table: version 0 is visited, the eight statements
  of \<^verbatim>\<open>validatorsEpochNull\<close> are executed in the transaction, the first statement
  of \<^verbatim>\<open>createDeposits\<close> fails, the transaction is cancelled, and nothing of it is
  in the committed database.
\<close>

theorem Upgrade_step_failure_rolls_back_witness:
  "\<exists>w'. Upgrade deposits_refused_env (upgrades deposits_refused_env) currentVersion None fresh_world =
        Some ((False, Some (Wrap (Wrap (Failure ''permission denied'') ''failed to create deposits table'')
                             ''failed to upgrade'')), w')
     \<and> trace w' =
         [BeginTxEv 0, LogUpgrading 0, LogUpgrading 1, LogRunning 1 7]
         @ map (\<lambda>stmt. ExecEv 0 (fst stmt)) validatorsEpochNull_stmts
         @ [LogRunning 2 7, ExecEv 0 (fst (hd createDeposits_stmts)), CancelEv 0]
     \<and> pending w' 0 = None
     \<and> persisted w' = persisted fresh_world
     \<and> version deposits_refused_env None w' = Inr 0"
proof -
  let ?E = deposits_refused_env
  let ?w1 = "snd (BeginTx ?E None fresh_world)"
  let ?wi = "emit (LogUpgrading 0) ?w1"
  let ?u = "\<lparr>requiresRefetch = True,
            funcs = [validatorsEpochNull ?E, createDeposits ?E, createChainSpec ?E, createGenesis ?E,
                     addProposerSlashingBlockRoots ?E, createETH1Deposits ?E,
                     addAttestationAggregationIndices ?E]\<rparr>"
  let ?wa = "snd (validatorsEpochNull ?E (Some 0) (emit (LogRunning (0 + 1) (length (funcs ?u))) (emit (LogUpgrading 1) ?wi)))"
  let ?wb = "snd (createDeposits ?E (Some 0) (emit (LogRunning (length [validatorsEpochNull ?E] + 1) (length (funcs ?u))) ?wa))"
  have v: "version ?E None fresh_world = Inr 0"
    by (simp add: run_eval deposits_refused_env_def)
  have ne: "(0 :: uint64) \<noteq> currentVersion"
    by (simp add: currentVersion_def)
  have tx: "BeginTx ?E None fresh_world = (Inr 0, ?w1)"
    by (simp add: run_eval deposits_refused_env_def)
  have before: "versions_ok (upgrades ?E) currentVersion (Some 0) 0 ?w1 (0 + 1) ?wi"
    by (rule versions_ok_absent) (simp_all add: upgrades_def currentVersion_def versions_ok_here)
  have here: "(0 + 1 :: uint64) \<le> currentVersion" "upgrades ?E (0 + 1) = Some ?u"
    "funcs ?u = [validatorsEpochNull ?E] @ createDeposits ?E #
        [createChainSpec ?E, createGenesis ?E, addProposerSlashingBlockRoots ?E,
         createETH1Deposits ?E, addAttestationAggregationIndices ?E]"
    by (simp_all add: upgrades_def currentVersion_def)
  have pre: "funcs_ok [validatorsEpochNull ?E] 0 (length (funcs ?u)) (Some 0) (emit (LogUpgrading (0 + 1)) ?wi) ?wa"
    by (rule funcs_ok_next [OF _ funcs_ok_none]) (simp add: run_eval deposits_refused_env_def)
  have fails: "createDeposits ?E (Some 0)
                 (emit (LogRunning (length [validatorsEpochNull ?E] + 1) (length (funcs ?u))) ?wa) =
               (Some (Wrap (Failure ''permission denied'') ''failed to create deposits table''), ?wb)"
    by (simp add: run_eval deposits_refused_env_def)
  have t: "trace ?wb =
         [BeginTxEv 0, LogUpgrading 0, LogUpgrading 1, LogRunning 1 7]
         @ map (\<lambda>stmt. ExecEv 0 (fst stmt)) validatorsEpochNull_stmts
         @ [LogRunning 2 7, ExecEv 0 (fst (hd createDeposits_stmts))]"
    by (simp add: run_eval deposits_refused_env_def)
  from Upgrade_step_failure_rolls_back [OF upgrades_confined v ne tx before here pre fails]
  have run: "Upgrade ?E (upgrades ?E) currentVersion None fresh_world =
        Some ((False, Some (Wrap (Wrap (Failure ''permission denied'') ''failed to create deposits table'')
                             ''failed to upgrade'')), cancel 0 ?wb)"
    and c: "trace (cancel 0 ?wb) = trace ?wb @ [CancelEv 0]"
    and p: "pending (cancel 0 ?wb) 0 = None"
    and q: "persisted (cancel 0 ?wb) = persisted fresh_world"
    and s: "version ?E None (cancel 0 ?wb) = version ?E None fresh_world"
    by blast+
  from c t have "trace (cancel 0 ?wb) =
         [BeginTxEv 0, LogUpgrading 0, LogUpgrading 1, LogRunning 1 7]
         @ map (\<lambda>stmt. ExecEv 0 (fst stmt)) validatorsEpochNull_stmts
         @ [LogRunning 2 7, ExecEv 0 (fst (hd createDeposits_stmts)), CancelEv 0]"
    by simp
  with run p q s v show ?thesis by auto
qed

subsection \<open>C3: nothing to do\<close>

text \<open>
  C3: when the version read at the start is the target, \<^verbatim>\<open>Upgrade\<close> returns
  \<open>(false, nil)\<close> and the world is the one it was given: no transaction was opened
  and nothing was written. Hence a second \<^verbatim>\<open>Upgrade\<close> right after a successful one
  returns \<open>(false, nil)\<close> and changes nothing, the version staying at the target;
  this holds when the codec reads back the document it wrote for the target and the
  metadata can be read.
\<close>

theorem Upgrade_at_target_is_noop:
  "(version E ctx w = Inr target \<longrightarrow> Upgrade E ups target ctx w = Some ((False, None), w))
   \<and> (Upgrade E ups target None w = Some ((b, None), w')
        \<and> (\<forall>data. json_Marshal E target = Inr data \<longrightarrow> data \<noteq> [] \<and> json_Unmarshal E data = Inr target)
        \<and> metadata_fault E ''schema'' (persisted w') = None
      \<longrightarrow> Upgrade E ups target None w' = Some ((False, None), w')
          \<and> version E None w' = Inr target)"
proof (rule conjI)
  show "version E ctx w = Inr target \<longrightarrow> Upgrade E ups target ctx w = Some ((False, None), w)"
    by (simp add: Upgrade_def)
next
  show "Upgrade E ups target None w = Some ((b, None), w')
        \<and> (\<forall>data. json_Marshal E target = Inr data \<longrightarrow> data \<noteq> [] \<and> json_Unmarshal E data = Inr target)
        \<and> metadata_fault E ''schema'' (persisted w') = None
      \<longrightarrow> Upgrade E ups target None w' = Some ((False, None), w')
          \<and> version E None w' = Inr target"
  proof (rule impI)
    assume a: "Upgrade E ups target None w = Some ((b, None), w')
        \<and> (\<forall>data. json_Marshal E target = Inr data \<longrightarrow> data \<noteq> [] \<and> json_Unmarshal E data = Inr target)
        \<and> metadata_fault E ''schema'' (persisted w') = None"
    then have run: "Upgrade E ups target None w = Some ((b, None), w')"
      and codec: "\<And>data. json_Marshal E target = Inr data \<Longrightarrow> data \<noteq> [] \<and> json_Unmarshal E data = Inr target"
      and nofault: "metadata_fault E ''schema'' (persisted w') = None" by auto
    from run obtain v where v: "version E None w = Inr v"
      by (cases "version E None w") (auto simp add: Upgrade_def)
    have "version E None w' = Inr target"
    proof (cases "v = target")
      case True
      with run v show ?thesis by (simp add: Upgrade_def)
    next
      case False
      from Upgrade_success_persisted [OF run v False]
      obtain data where m: "json_Marshal E target = Inr data"
        and p: "metadata (persisted w') ''schema'' = Some data" by blast
      from codec [OF m] p nofault show ?thesis
        by (simp add: version_def Metadata_def read_metadata_def)
    qed
    then show "Upgrade E ups target None w' = Some ((False, None), w') \<and> version E None w' = Inr target"
      by (simp add: Upgrade_def)
  qed
qed

text \<open>
  The shipped registry in the reference environment: on a database at version 1
  nothing happens, and after the upgrade of a database that was never initialised a
  second call does nothing.
\<close>

theorem Upgrade_at_target_is_noop_witness:
  \<open>Upgrade mem_env (upgrades mem_env) currentVersion None (world_with ''{"version":1}'') =
      Some ((False, None), world_with ''{"version":1}'')
   \<and> (\<exists>w'. Upgrade mem_env (upgrades mem_env) currentVersion None fresh_world = Some ((True, None), w')
         \<and> Upgrade mem_env (upgrades mem_env) currentVersion None w' = Some ((False, None), w')
         \<and> version mem_env None w' = Inr currentVersion)\<close>
proof -
  have v: \<open>version mem_env None (world_with ''{"version":1}'') = Inr currentVersion\<close>
    by (simp add: run_eval)
  from shipped_fresh_run obtain w'
    where run: "Upgrade mem_env (upgrades mem_env) currentVersion None fresh_world = Some ((True, None), w')"
    by blast
  have codec: "\<forall>data. json_Marshal mem_env currentVersion = Inr data \<longrightarrow>
                 data \<noteq> [] \<and> json_Unmarshal mem_env data = Inr currentVersion"
    by (auto simp add: run_eval)
  have nofault: "metadata_fault mem_env ''schema'' (persisted w') = None"
    by (simp add: mem_env_def)
  from Upgrade_at_target_is_noop
         [of mem_env None \<open>world_with ''{"version":1}''\<close> currentVersion "upgrades mem_env"]
    Upgrade_at_target_is_noop
         [of mem_env None fresh_world currentVersion "upgrades mem_env" True w']
    v run codec nofault
  show ?thesis by blast
qed

subsection \<open>C4: the refetch flag\<close>

text \<open>
  C4: the boolean of a successful run is the disjunction of the
  \<^verbatim>\<open>requiresRefetch\<close> flags of the upgrades the run applied. The run applies nothing
  when the version read, \<open>v\<close>, is the target, and otherwise the upgrades registered
  for the versions the loop visits, \<open>v\<close> to the target; so flags false, true, false
  give true, and a run that applies no upgrade gives false.
\<close>

theorem Upgrade_refetch_is_disjunction:
  assumes run: "Upgrade E ups target ctx w = Some ((refetch, None), w')"
    and v: "version E ctx w = Inr v"
  shows "refetch =
           (v \<noteq> target \<and>
            (\<exists>i. v \<le> i \<and> i \<le> target \<and> (\<exists>u. ups i = Some u \<and> requiresRefetch u)))"
proof (cases "v = target")
  case True
  with run v show ?thesis by (simp add: Upgrade_def)
next
  case False
  from Upgrade_success_cases [OF run v False]
  obtain tid w1 w2 where "upgrade_loop ups target (Some tid) tid v False w1 = Some (Inr refetch, w2)"
    by blast
  from upgrade_loop_refetch [OF this] False show ?thesis by simp
qed

text \<open>
  Three upgrades with the flags false, true, false, applied in one run to a database
  that was never initialised, report true; an empty registry reports false.
\<close>

theorem Upgrade_refetch_is_disjunction_witness:
  "\<exists>w'. Upgrade mem_env (three_versions mem_env) 3 None fresh_world = Some ((True, None), w')
     \<and> version mem_env None fresh_world = Inr 0
     \<and> (\<exists>i. 0 \<le> i \<and> i \<le> 3 \<and> (\<exists>u. three_versions mem_env i = Some u \<and> requiresRefetch u))
     \<and> map_option fst (Upgrade mem_env Map.empty 3 None fresh_world) = Some (False, None)"
proof -
  have v: "version mem_env None fresh_world = Inr 0"
    by (simp add: run_eval three_versions_def)
  have "\<exists>w'. Upgrade mem_env (three_versions mem_env) 3 None fresh_world = Some ((True, None), w')"
    by (simp add: run_eval three_versions_def)
  then obtain w' where run: "Upgrade mem_env (three_versions mem_env) 3 None fresh_world = Some ((True, None), w')"
    by blast
  have run0: "map_option fst (Upgrade mem_env Map.empty 3 None fresh_world) = Some (False, None)"
    by (simp add: run_eval three_versions_def)
  from Upgrade_refetch_is_disjunction [OF run v] run v run0 show ?thesis by auto
qed

subsection \<open>C5: a failing commit\<close>

text \<open>
  C5: when every upgrade function has succeeded (the loop ran to its end), the
  version has been set and the commit fails with \<open>err\<close>, \<^verbatim>\<open>Upgrade\<close> cancels the
  transaction and returns \<open>err\<close> wrapped: never a nil error. The cancel is the last
  thing the run does, and the committed database is the one from before the commit.
\<close>

theorem Upgrade_commit_failure_is_error:
  assumes "version E ctx w = Inr v" and "v \<noteq> target"
    and "BeginTx E ctx w = (Inr tid, w1)"
    and "upgrade_loop ups target (Some tid) tid v False w1 = Some (Inr refetch, w2)"
    and "setVersion E (Some tid) target w2 = (None, w3)"
    and "CommitTx E (Some tid) w3 = (Some err, w4)"
  shows "Upgrade E ups target ctx w =
           Some ((False, Some (Wrap err ''failed to commit upgrade transaction'')), cancel tid w4)
         \<and> pending (cancel tid w4) tid = None
         \<and> trace (cancel tid w4) = trace w3 @ [CancelEv tid]
         \<and> persisted (cancel tid w4) = persisted w3"
  using assms
  by (auto simp add: Upgrade_def cancel_def emit_def CommitTx_def split: option.splits)

text \<open>
  The shipped registry on a database that was never initialised, where the commit is
  refused.
\<close>

theorem Upgrade_commit_failure_is_error_witness:
  "\<exists>w'. Upgrade no_commit_env (upgrades no_commit_env) currentVersion None fresh_world =
        Some ((False, Some (Wrap (Failure ''connection reset'') ''failed to commit upgrade transaction'')), w')
     \<and> pending w' 0 = None \<and> last (trace w') = CancelEv 0 \<and> persisted w' = persisted fresh_world"
proof -
  have v: "version no_commit_env None fresh_world = Inr 0"
    by (simp add: run_eval no_commit_env_def)
  have ne: "(0 :: uint64) \<noteq> currentVersion"
    by (simp add: currentVersion_def)
  have tx: "BeginTx no_commit_env None fresh_world = (Inr 0, snd (BeginTx no_commit_env None fresh_world))"
    by (simp add: run_eval no_commit_env_def)
  have "\<exists>w2. upgrade_loop (upgrades no_commit_env) currentVersion (Some 0) 0 0 False
           (snd (BeginTx no_commit_env None fresh_world)) = Some (Inr True, w2)
         \<and> persisted w2 = persisted fresh_world
         \<and> (\<exists>d. pending w2 0 = Some d)"
    by (simp add: run_eval no_commit_env_def)
  then obtain w2 d where loop: "upgrade_loop (upgrades no_commit_env) currentVersion (Some 0) 0 0 False
           (snd (BeginTx no_commit_env None fresh_world)) = Some (Inr True, w2)"
    and p2: "persisted w2 = persisted fresh_world" and d: "pending w2 0 = Some d" by blast
  have sv: "setVersion no_commit_env (Some 0) currentVersion w2 =
              (None, snd (setVersion no_commit_env (Some 0) currentVersion w2))"
    using d by (simp add: setVersion_def SetMetadata_def no_commit_env_def mem_env_def mem_Marshal_def)
  have p3: "persisted (snd (setVersion no_commit_env (Some 0) currentVersion w2)) = persisted w2"
    using d by (simp add: setVersion_def SetMetadata_def emit_def no_commit_env_def mem_env_def mem_Marshal_def)
  have cm: "CommitTx no_commit_env (Some 0) (snd (setVersion no_commit_env (Some 0) currentVersion w2)) =
              (Some (Failure ''connection reset''), snd (setVersion no_commit_env (Some 0) currentVersion w2))"
    using d by (simp add: CommitTx_def setVersion_def SetMetadata_def emit_def no_commit_env_def mem_env_def mem_Marshal_def)
  from Upgrade_commit_failure_is_error [OF v ne tx loop sv cm] p2 p3 show ?thesis
    by (simp add: cancel_def emit_def)
qed

subsection \<open>C6: a database ahead of the software\<close>

text \<open>
  C6: when the version read is above the target and beginning, marshalling, writing
  and committing succeed, \<^verbatim>\<open>Upgrade\<close> opens a transaction, runs no upgrade function
  and visits no version, writes the version document of the target, commits and
  returns \<open>(false, nil)\<close>: the persisted version moves backwards.
\<close>

theorem Upgrade_moves_version_backwards:
  assumes "version E ctx w = Inr v" and "target < v"
    and "begin_fault E (persisted w) = None"
    and "json_Marshal E target = Inr data"
    and "set_metadata_fault E ''schema'' data (persisted w) = None"
    and "commit_fault E ((persisted w)\<lparr>metadata := (metadata (persisted w))(''schema'' \<mapsto> data)\<rparr>) = None"
  shows "Upgrade E ups target ctx w =
           Some ((False, None),
                 w\<lparr>persisted := (persisted w)\<lparr>metadata := (metadata (persisted w))(''schema'' \<mapsto> data)\<rparr>,
                   pending := (pending w)(nexttx w := None),
                   nexttx := Suc (nexttx w),
                   trace := trace w @ [BeginTxEv (nexttx w),
                                       SetMetadataEv (nexttx w) ''schema'' data,
                                       CommitEv (nexttx w),
                                       LogComplete]\<rparr>)"
proof -
  from assms(2) have ne: "v \<noteq> target" and over: "\<not> v \<le> target" by auto
  show ?thesis
    using assms(1,3-) ne
    by (simp add: Upgrade_def upgrade_loop_done [OF over] BeginTx_def setVersion_def SetMetadata_def
        CommitTx_def emit_def Let_def)
qed

text \<open>
  The shipped registry on a database at version 5: afterwards the database is at
  version 1.
\<close>

theorem Upgrade_moves_version_backwards_witness:
  \<open>version mem_env None (world_with ''{"version":5}'') = Inr 5
   \<and> Upgrade mem_env (upgrades mem_env) currentVersion None (world_with ''{"version":5}'') =
       Some ((False, None),
             (world_with ''{"version":1}'')
               \<lparr>nexttx := 1,
                 trace := [BeginTxEv 0, SetMetadataEv 0 ''schema'' ''{"version":1}'', CommitEv 0, LogComplete]\<rparr>)
   \<and> version mem_env None
        ((world_with ''{"version":1}'')
               \<lparr>nexttx := 1,
                 trace := [BeginTxEv 0, SetMetadataEv 0 ''schema'' ''{"version":1}'', CommitEv 0, LogComplete]\<rparr>) = Inr 1\<close>
proof -
  have v: \<open>version mem_env None (world_with ''{"version":5}'') = Inr 5\<close>
    by (simp add: run_eval)
  have gt: "currentVersion < (5 :: uint64)"
    by (simp add: currentVersion_def word_less_nat_alt)
  have m: \<open>json_Marshal mem_env currentVersion = Inr ''{"version":1}''\<close>
    by (simp add: run_eval)
  from Upgrade_moves_version_backwards
         [of mem_env None \<open>world_with ''{"version":5}''\<close> 5 currentVersion \<open>''{"version":1}''\<close>
             "upgrades mem_env", OF v gt _ m]
  show ?thesis
    using v by (simp add: run_eval)
qed

subsection \<open>C7: reading the version\<close>

text \<open>
  C7: the version read is 0 when the committed database has no document under the
  key \<open>schema\<close>; and when the metadata cannot be read, or the document read is not
  empty and cannot be unmarshalled, \<^verbatim>\<open>Upgrade\<close> returns the error, wrapped twice,
  and the world is the one it was given: no transaction was opened and nothing was
  changed.
\<close>

theorem Upgrade_version_read_failure:
  "(metadata (persisted w) ''schema'' = None \<and> metadata_fault E ''schema'' (persisted w) = None \<longrightarrow>
      version E None w = Inr 0)
   \<and> (Metadata E ctx ''schema'' w = Inl err \<longrightarrow>
      Upgrade E ups target ctx w =
        Some ((False, Some (Wrap (Wrap err ''failed to obtain schema metadata'') ''failed to obtain version'')), w))
   \<and> (Metadata E ctx ''schema'' w = Inr data \<and> data \<noteq> [] \<and> json_Unmarshal E data = Inl err \<longrightarrow>
      Upgrade E ups target ctx w =
        Some ((False, Some (Wrap (Wrap err ''failed to unmarshal metadata JSON'') ''failed to obtain version'')), w))"
  by (simp add: Upgrade_def version_def Metadata_def read_metadata_def)

text \<open>
  A database that was never initialised is at version 0; a metadata store that cannot
  be reached and a truncated document both stop \<^verbatim>\<open>Upgrade\<close> before anything happens.
\<close>

theorem Upgrade_version_read_failure_witness:
  \<open>version mem_env None fresh_world = Inr 0
   \<and> Upgrade unreachable_env (upgrades unreachable_env) currentVersion None fresh_world =
       Some ((False, Some (Wrap (Wrap (Failure ''connection refused'') ''failed to obtain schema metadata'')
                            ''failed to obtain version'')), fresh_world)
   \<and> Upgrade mem_env (upgrades mem_env) currentVersion None (world_with ''{"version":'') =
       Some ((False, Some (Wrap (Wrap (Failure ''unexpected input'') ''failed to unmarshal metadata JSON'')
                            ''failed to obtain version'')), world_with ''{"version":'')\<close>
  using Upgrade_version_read_failure
          [of fresh_world mem_env None "Failure ''connection refused''" "upgrades mem_env"
              currentVersion \<open>[]\<close>]
    Upgrade_version_read_failure
          [of fresh_world unreachable_env None "Failure ''connection refused''"
              "upgrades unreachable_env" currentVersion \<open>[]\<close>]
    Upgrade_version_read_failure
          [of \<open>world_with ''{"version":''\<close> mem_env None "Failure ''unexpected input''"
              "upgrades mem_env" currentVersion \<open>''{"version":''\<close>]
  by (simp add: svc_defs mem_defs unreachable_env_def)

subsection \<open>C8: no ambient transaction\<close>

text \<open>
  C8: each of the seven upgrade functions, and \<^verbatim>\<open>setVersion\<close>, called with a
  context that carries no transaction, returns the sentinel \<open>ErrNoTransaction\<close>
  itself, and the world is the one it was given: no database operation took place.
\<close>

theorem no_transaction_is_sentinel:
  "validatorsEpochNull E None w = (Some ErrNoTransaction, w)
   \<and> createDeposits E None w = (Some ErrNoTransaction, w)
   \<and> createChainSpec E None w = (Some ErrNoTransaction, w)
   \<and> createGenesis E None w = (Some ErrNoTransaction, w)
   \<and> addProposerSlashingBlockRoots E None w = (Some ErrNoTransaction, w)
   \<and> createETH1Deposits E None w = (Some ErrNoTransaction, w)
   \<and> addAttestationAggregationIndices E None w = (Some ErrNoTransaction, w)
   \<and> setVersion E None v w = (Some ErrNoTransaction, w)"
  by (simp add: step_defs setVersion_def)

subsection \<open>C9: the column is already there\<close>

text \<open>
  C9: \<^verbatim>\<open>addAttestationAggregationIndices\<close> first asks the catalogue whether
  \<^verbatim>\<open>t_attestations\<close> has the column \<^verbatim>\<open>f_aggregation_indices\<close>; when the answer is
  yes it returns nil having issued that query and nothing else, so no statement is
  executed and the working copy of the transaction is untouched. Run again on what
  it left, it does the same.
\<close>

theorem addAttestationAggregationIndices_skips_present_column:
  assumes "pending w tx = Some d"
    and "query_sql E (columnExists_query ''t_attestations'' ''f_aggregation_indices'') d = Inr (Inr True)"
  shows "addAttestationAggregationIndices E (Some tx) w =
           (None, emit (QueryEv tx (columnExists_query ''t_attestations'' ''f_aggregation_indices'')) w)
       \<and> addAttestationAggregationIndices E (Some tx)
           (snd (addAttestationAggregationIndices E (Some tx) w)) =
           (None, emit (QueryEv tx (columnExists_query ''t_attestations'' ''f_aggregation_indices''))
                   (emit (QueryEv tx (columnExists_query ''t_attestations'' ''f_aggregation_indices'')) w))"
  using assms
  by (simp add: addAttestationAggregationIndices_def columnExists_def columnExists_body_def tx_Query_def emit_def)

text \<open>
  In the reference environment the first run adds the column; the second run, on
  what the first left, only asks.
\<close>

theorem addAttestationAggregationIndices_skips_present_column_witness:
  "addAttestationAggregationIndices mem_env (Some 0)
     (snd (addAttestationAggregationIndices mem_env (Some 0) (snd (BeginTx mem_env None fresh_world)))) =
   (None,
    emit (QueryEv 0 (columnExists_query ''t_attestations'' ''f_aggregation_indices''))
      (snd (addAttestationAggregationIndices mem_env (Some 0) (snd (BeginTx mem_env None fresh_world)))))
   \<and> trace (snd (addAttestationAggregationIndices mem_env (Some 0) (snd (BeginTx mem_env None fresh_world)))) =
       [BeginTxEv 0,
        QueryEv 0 (columnExists_query ''t_attestations'' ''f_aggregation_indices''),
        ExecEv 0 (fst (hd addAttestationAggregationIndices_stmts))]"
proof -
  let ?w1 = "snd (addAttestationAggregationIndices mem_env (Some 0) (snd (BeginTx mem_env None fresh_world)))"
  have p: "pending ?w1 0 = Some \<lparr>metadata = Map.empty, tables = [fst (hd addAttestationAggregationIndices_stmts)]\<rparr>"
    by (simp add: run_eval)
  have q: "query_sql mem_env (columnExists_query ''t_attestations'' ''f_aggregation_indices'')
             \<lparr>metadata = Map.empty, tables = [fst (hd addAttestationAggregationIndices_stmts)]\<rparr> = Inr (Inr True)"
    by (simp add: mem_env_def)
  have t: "trace ?w1 = [BeginTxEv 0,
        QueryEv 0 (columnExists_query ''t_attestations'' ''f_aggregation_indices''),
        ExecEv 0 (fst (hd addAttestationAggregationIndices_stmts))]"
    by (simp add: run_eval)
  from addAttestationAggregationIndices_skips_present_column [OF p q] t show ?thesis by simp
qed

subsection \<open>C10: the transaction of the probe\<close>

text \<open>
  C10: called without an ambient transaction, \<^verbatim>\<open>columnExists\<close> begins a transaction
  of its own, queries on it and cancels it when it returns; it does not return
  \<open>ErrNoTransaction\<close>, and when the begin itself fails it returns that failure
  wrapped. Called with an open ambient transaction it queries on that transaction,
  and begins and cancels nothing.
\<close>

theorem columnExists_transaction_scope:
  "(begin_fault E (persisted w) = None \<longrightarrow>
      columnExists E None tableName columnName w =
        (scanned (query_sql E (columnExists_query tableName columnName) (persisted w)),
         w\<lparr>pending := (pending w)(nexttx w := None),
           nexttx := Suc (nexttx w),
           trace := trace w @ [BeginTxEv (nexttx w),
                               QueryEv (nexttx w) (columnExists_query tableName columnName),
                               CancelEv (nexttx w)]\<rparr>))
   \<and> (begin_fault E (persisted w) = Some err \<longrightarrow>
      columnExists E None tableName columnName w =
        ((False, Some (Wrap err ''failed to begin transaction'')), w))
   \<and> (pending w tx = Some d \<longrightarrow>
      columnExists E (Some tx) tableName columnName w =
        (scanned (query_sql E (columnExists_query tableName columnName) d),
         w\<lparr>trace := trace w @ [QueryEv tx (columnExists_query tableName columnName)]\<rparr>))"
  by (simp add: columnExists_def columnExists_body_def BeginTx_def tx_Query_def cancel_def emit_def Let_def)

text \<open>
  In the reference environment, on a database without the column: the probe alone,
  the probe where no transaction can be begun, and the probe inside a transaction.
\<close>

theorem columnExists_transaction_scope_witness:
  "columnExists mem_env None ''t_attestations'' ''f_aggregation_indices'' fresh_world =
     ((False, None),
      fresh_world\<lparr>nexttx := 1,
        trace := [BeginTxEv 0,
                  QueryEv 0 (columnExists_query ''t_attestations'' ''f_aggregation_indices''),
                  CancelEv 0]\<rparr>)
   \<and> columnExists (mem_env\<lparr>begin_fault := (\<lambda>d. Some (Failure ''too many clients''))\<rparr>) None
        ''t_attestations'' ''f_aggregation_indices'' fresh_world =
     ((False, Some (Wrap (Failure ''too many clients'') ''failed to begin transaction'')), fresh_world)
   \<and> columnExists mem_env (Some 0) ''t_attestations'' ''f_aggregation_indices''
        (snd (BeginTx mem_env None fresh_world)) =
     ((False, None),
      (snd (BeginTx mem_env None fresh_world))
        \<lparr>trace := [BeginTxEv 0,
                  QueryEv 0 (columnExists_query ''t_attestations'' ''f_aggregation_indices'')]\<rparr>)"
  using columnExists_transaction_scope
          [of mem_env fresh_world "''t_attestations''" "''f_aggregation_indices''"
              "Failure ''too many clients''" 0 "persisted fresh_world"]
    columnExists_transaction_scope
          [of "mem_env\<lparr>begin_fault := (\<lambda>d. Some (Failure ''too many clients''))\<rparr>" fresh_world
              "''t_attestations''" "''f_aggregation_indices''"
              "Failure ''too many clients''" 0 "persisted fresh_world"]
    columnExists_transaction_scope
          [of mem_env "snd (BeginTx mem_env None fresh_world)" "''t_attestations''"
              "''f_aggregation_indices''" "Failure ''too many clients''" 0 "persisted fresh_world"]
  by (simp add: mem_env_def fresh_world_def BeginTx_def emit_def addAttestationAggregationIndices_stmts_def Let_def)

end
